theory Spec2Isabelle
  imports Complex_Main "HOL-Library.Multiset" "HOL-Library.Sublist"
begin

section \<open>The JavaScript values the program handles\<close>

text \<open>
  A JavaScript string is a sequence of UTF-16 code units. A code unit is modelled by its
  number, a string by the list of its code units, and \<open>js\<close> reads an ASCII literal.
  Concatenation (\<open>+\<close>, \<open>+=\<close>, template literals) is list append.
\<close>

type_synonym jschar = nat
type_synonym jsstring = "jschar list"

definition js :: "string \<Rightarrow> jsstring" where
  "js s = map of_char s"

text \<open>
  TypeScript's types are erased when the program runs: a field read from parsed model
  output holds whatever value the JSON carried, or \<open>undefined\<close>. A JSON number is kept
  as the exact rational its decimal literal denotes; the engine keeps the nearest double,
  and the model rounds only where the program looks at the number (its truthiness).
  An object is the list of its own properties in insertion order.
\<close>

datatype jsval =
    JUndefined
  | JNull
  | JBool bool
  | JNumber rat
  | JString jsstring
  | JArray "jsval list"
  | JObject "(jsstring \<times> jsval) list"

subsection \<open>\<open>Map\<close> objects\<close>

text \<open>
  A JavaScript \<open>Map\<close> keeps its entries in insertion order with one entry per key:
  \<open>set\<close> on a key that is present replaces the value where it stands, \<open>set\<close> on a new
  key appends, \<open>delete\<close> removes the entry. \<open>new Map(m)\<close> copies \<open>m\<close>, so the model
  passes the list itself.
\<close>

type_synonym ('k, 'v) jsmap = "('k \<times> 'v) list"

definition Map_get :: "('k, 'v) jsmap \<Rightarrow> 'k \<Rightarrow> 'v option" where
  "Map_get m k = map_of m k"

primrec Map_set :: "'k \<Rightarrow> 'v \<Rightarrow> ('k, 'v) jsmap \<Rightarrow> ('k, 'v) jsmap" where
  "Map_set k v [] = [(k, v)]"
| "Map_set k v (p # ps) = (if fst p = k then (k, v) # ps else p # Map_set k v ps)"

primrec Map_delete :: "'k \<Rightarrow> ('k, 'v) jsmap \<Rightarrow> ('k, 'v) jsmap" where
  "Map_delete k [] = []"
| "Map_delete k (p # ps) = (if fst p = k then Map_delete k ps else p # Map_delete k ps)"

definition Map_size :: "('k, 'v) jsmap \<Rightarrow> nat" where
  "Map_size m = length m"

definition Map_values :: "('k, 'v) jsmap \<Rightarrow> 'v list" where
  "Map_values m = map snd m"

section \<open>The data model (\<open>types/phases.ts\<close>)\<close>

text \<open>
  Modelled from the spec: the declarations of \<open>types/phases.ts\<close> are not among the
  sources. The records below have the fields that the spec's data model lists and that
  the code of \<open>AnalysisContext.tsx\<close> and of the agents reads and writes. Dates are
  millisecond timestamps.
\<close>

datatype Phase =
    UPLOAD_ALIGN
  | PROCESSING_VALIDATION
  | INSIGHT_EXTRACTION
  | GAP_ANALYSIS
  | CONSOLIDATION

datatype analysis_status = status_pending | status_complete | status_error

record PlannerOutput =
  contextUnderstanding :: jsstring
  metadataTags :: "jsstring list"
  analysisObjective :: jsstring

record FrameworkSegment =
  fs_id :: jsstring
  fs_title :: jsval
  fs_objective :: jsval
  fs_guidance :: jsval
  fs_order :: nat

record FrameworkMetadata =
  md_title :: jsstring
  md_created :: nat
  md_objective :: jsstring
  md_tags :: "jsstring list"

record AnalysisFramework =
  fw_metadata :: FrameworkMetadata
  fw_segments :: "FrameworkSegment list"

record SegmentAnalysis =
  sa_segmentId :: jsstring
  sa_content :: jsstring
  sa_status :: analysis_status
  sa_generatedAt :: "nat option"

record CriticEvaluation =
  ce_segmentId :: jsstring
  ce_evaluation :: jsstring
  ce_sourceAlignment :: bool
  ce_sourceAlignmentIssues :: "jsstring list option"
  ce_objectiveFulfillmentScore :: nat
  ce_improvementGuidance :: jsstring
  ce_suggestions :: "jsstring list"
  ce_generatedAt :: nat

record GapSuggestion =
  gs_id :: jsstring
  gs_title :: jsval
  gs_objective :: jsval
  gs_guidance :: jsval
  gs_rationale :: jsval

record GapAnalysis =
  ga_uncoveredThemes :: "jsstring list"
  ga_alternativePerspectives :: "jsstring list"
  ga_recommendations :: "jsstring list"
  ga_summary :: jsstring
  ga_suggestions :: "GapSuggestion list"
  ga_analyzedGaps :: "(jsstring, SegmentAnalysis) jsmap"
  ga_newSegments :: "FrameworkSegment list"
  ga_generatedAt :: nat

record AnalysisState =
  currentPhase :: Phase
  transcript :: jsstring
  plannerOutput :: "PlannerOutput option"
  framework :: "AnalysisFramework option"
  segmentAnalyses :: "(jsstring, SegmentAnalysis) jsmap"
  criticEvaluations :: "(jsstring, CriticEvaluation) jsmap"
  gapAnalysis :: "GapAnalysis option"

section \<open>The phase state machine (\<open>contexts/AnalysisContext.tsx\<close>)\<close>

text \<open>
  \<open>canProceedToPhase\<close> reads the current state. The \<open>default\<close> branch of the source's
  \<open>switch\<close> is not reached: \<open>Phase\<close> has the five values.
\<close>

fun canProceedToPhase :: "AnalysisState \<Rightarrow> Phase \<Rightarrow> bool" where
  "canProceedToPhase state UPLOAD_ALIGN = True"
| "canProceedToPhase state PROCESSING_VALIDATION =
     (plannerOutput state \<noteq> None \<and> transcript state \<noteq> [])"
| "canProceedToPhase state INSIGHT_EXTRACTION = (framework state \<noteq> None)"
| "canProceedToPhase state GAP_ANALYSIS = (Map_size (segmentAnalyses state) > 0)"
| "canProceedToPhase state CONSOLIDATION = (Map_size (segmentAnalyses state) > 0)"

text \<open>
  \<open>addGapToMainAnalysis\<close> is a functional state update (\<open>setState(prev => ...)\<close>): the
  model is the function from \<open>prev\<close> to the new state. The optional parameter
  \<open>suggestion\<close> is an option; an object is truthy, so \<open>suggestion || find(...)\<close> takes
  the argument when it is given. In a state, \<open>setGapAnalysis\<close> has already replaced
  missing \<open>suggestions\<close> and \<open>analyzedGaps\<close> by empty ones.
\<close>

definition targetSuggestion ::
  "jsstring \<Rightarrow> GapSuggestion option \<Rightarrow> AnalysisState \<Rightarrow> GapSuggestion option" where
  "targetSuggestion gapId suggestion prev =
     (case suggestion of
        Some s \<Rightarrow> Some s
      | None \<Rightarrow>
          (case gapAnalysis prev of
             None \<Rightarrow> None
           | Some ga \<Rightarrow> find (\<lambda>s. gs_id s = gapId) (ga_suggestions ga)))"

definition newSegment :: "GapSuggestion \<Rightarrow> AnalysisFramework \<Rightarrow> FrameworkSegment" where
  "newSegment t fw =
     \<lparr>fs_id = gs_id t, fs_title = gs_title t, fs_objective = gs_objective t,
      fs_guidance = gs_guidance t, fs_order = length (fw_segments fw) + 1\<rparr>"

definition addGapToMainAnalysis ::
  "jsstring \<Rightarrow> SegmentAnalysis \<Rightarrow> GapSuggestion option \<Rightarrow> AnalysisState \<Rightarrow> AnalysisState" where
  "addGapToMainAnalysis gapId analysis suggestion prev =
     (let newAnalyses = Map_set gapId analysis (segmentAnalyses prev);
          newFramework =
            (case targetSuggestion gapId suggestion prev of
               None \<Rightarrow> framework prev
             | Some t \<Rightarrow>
                 (case framework prev of
                    None \<Rightarrow> framework prev
                  | Some fw \<Rightarrow> Some (fw\<lparr>fw_segments := fw_segments fw @ [newSegment t fw]\<rparr>)));
          newGapAnalyses =
            Map_delete gapId
              (case gapAnalysis prev of None \<Rightarrow> [] | Some ga \<Rightarrow> ga_analyzedGaps ga)
      in prev\<lparr>segmentAnalyses := newAnalyses,
              framework := newFramework,
              gapAnalysis :=
                (case gapAnalysis prev of
                   None \<Rightarrow> None
                 | Some ga \<Rightarrow> Some (ga\<lparr>ga_analyzedGaps := newGapAnalyses\<rparr>))\<rparr>)"

text \<open>What the claims speak of: a segment analysis whose status is \<open>complete\<close>.\<close>

definition has_completed_analysis :: "AnalysisState \<Rightarrow> bool" where
  "has_completed_analysis state =
     list_ex (\<lambda>kv. sa_status (snd kv) = status_complete) (segmentAnalyses state)"

text \<open>A state whose only segment analysis carries the status \<open>error\<close>.\<close>

definition error_only_state :: AnalysisState where
  "error_only_state =
     \<lparr>currentPhase = INSIGHT_EXTRACTION, transcript = js ''some transcript'',
      plannerOutput = None, framework = None,
      segmentAnalyses =
        [(js ''s1'', \<lparr>sa_segmentId = js ''s1'', sa_content = [], sa_status = status_error,
                      sa_generatedAt = None\<rparr>)],
      criticEvaluations = [], gapAnalysis = None\<rparr>"

section \<open>Thrown values\<close>

text \<open>
  What a \<open>catch\<close> clause receives is either an \<open>Error\<close> instance, which has a message,
  or some other value. The message of an error the program or a provider creates is a
  string (\<open>new Error('...')\<close>); the message of an error the engine raises (a
  \<open>TypeError\<close> on reading a property of \<open>undefined\<close> or calling what is no function, a
  \<open>SyntaxError\<close> of \<open>JSON.parse\<close>) is worded by the engine, and the model keeps only
  which error it is.
\<close>

datatype engine_error = TypeError | SyntaxError

datatype message = Text jsstring | Engine_text engine_error

datatype thrown = Error_instance message | Other_value

text \<open>\<open>error instanceof Error ? error.message : 'Unknown error'\<close>\<close>

definition message_or_unknown :: "thrown \<Rightarrow> message" where
  "message_or_unknown error =
     (case error of Error_instance msg \<Rightarrow> msg | Other_value \<Rightarrow> Text (js ''Unknown error''))"

section \<open>The agent task orchestrator (\<open>services/agent.orchestrator.ts\<close>)\<close>

text \<open>
  Modelled from the spec: \<open>Agent\<close> and \<open>AgentStatus\<close> are declared in \<open>types/index.ts\<close>,
  which is not among the sources; the fields are those of the spec's AgentTask entry,
  which are the ones the orchestrator writes.
\<close>

datatype AgentStatus = IDLE | RUNNING | COMPLETED | FAILED

record Agent =
  agent_id :: jsstring
  agent_name :: jsstring
  agent_status :: AgentStatus
  agent_progress :: nat
  agent_output :: "jsstring option"
  agent_error :: "message option"

text \<open>
  \<open>Partial<Agent>\<close>: an object with some of the fields. \<open>Object.assign(agent, updates)\<close>
  overwrites the fields that \<open>updates\<close> has and keeps the others.
\<close>

record AgentUpdates =
  upd_id :: "jsstring option"
  upd_name :: "jsstring option"
  upd_status :: "AgentStatus option"
  upd_progress :: "nat option"
  upd_output :: "jsstring option"
  upd_error :: "message option"

definition no_updates :: AgentUpdates where
  "no_updates =
     \<lparr>upd_id = None, upd_name = None, upd_status = None, upd_progress = None,
      upd_output = None, upd_error = None\<rparr>"

definition Object_assign :: "Agent \<Rightarrow> AgentUpdates \<Rightarrow> Agent" where
  "Object_assign agent updates =
     \<lparr>agent_id = (case upd_id updates of None \<Rightarrow> agent_id agent | Some v \<Rightarrow> v),
      agent_name = (case upd_name updates of None \<Rightarrow> agent_name agent | Some v \<Rightarrow> v),
      agent_status = (case upd_status updates of None \<Rightarrow> agent_status agent | Some v \<Rightarrow> v),
      agent_progress =
        (case upd_progress updates of None \<Rightarrow> agent_progress agent | Some v \<Rightarrow> v),
      agent_output =
        (case upd_output updates of None \<Rightarrow> agent_output agent | Some v \<Rightarrow> Some v),
      agent_error =
        (case upd_error updates of None \<Rightarrow> agent_error agent | Some v \<Rightarrow> Some v)\<rparr>"

text \<open>
  The orchestrator's state: the \<open>agents\<close> map, and what the listeners have been handed.
  \<open>notifyListeners\<close> calls every subscribed listener with \<open>getAgents()\<close>, the agents in
  the map's order; \<open>notified\<close> keeps these snapshots, oldest first, each with the field
  values at the time of the call.
\<close>

record Orchestrator =
  agents :: "(jsstring, Agent) jsmap"
  notified :: "Agent list list"

definition getAgents :: "Orchestrator \<Rightarrow> Agent list" where
  "getAgents orch = Map_values (agents orch)"

definition notifyListeners :: "Orchestrator \<Rightarrow> Orchestrator" where
  "notifyListeners orch = orch\<lparr>notified := notified orch @ [getAgents orch]\<rparr>"

definition registerAgent :: "Agent \<Rightarrow> Orchestrator \<Rightarrow> Orchestrator" where
  "registerAgent agent orch =
     notifyListeners (orch\<lparr>agents := Map_set (agent_id agent) agent (agents orch)\<rparr>)"

text \<open>
  \<open>Object.assign\<close> changes the agent object that the map holds, so the entry under \<open>id\<close>
  stays where it is and carries the new field values.
\<close>

definition updateAgent :: "jsstring \<Rightarrow> AgentUpdates \<Rightarrow> Orchestrator \<Rightarrow> Orchestrator" where
  "updateAgent ident updates orch =
     (case Map_get (agents orch) ident of
        None \<Rightarrow> orch
      | Some agent \<Rightarrow>
          notifyListeners
            (orch\<lparr>agents := Map_set ident (Object_assign agent updates) (agents orch)\<rparr>))"

text \<open>
  A task is its id, its name and its work function. The work function is modelled by
  how its promise settles: it resolves with a string or rejects with a thrown value.
\<close>

record AgentTask =
  task_id :: jsstring
  task_name :: jsstring
  task_settles :: "thrown + jsstring"

definition register_task :: "AgentTask \<Rightarrow> Orchestrator \<Rightarrow> Orchestrator" where
  "register_task t orch =
     registerAgent
       \<lparr>agent_id = task_id t, agent_name = task_name t, agent_status = IDLE,
        agent_progress = 0, agent_output = None, agent_error = None\<rparr> orch"

text \<open>The part of the \<open>async\<close> callback before its \<open>await\<close>.\<close>

definition start_task :: "AgentTask \<Rightarrow> Orchestrator \<Rightarrow> Orchestrator" where
  "start_task t orch =
     updateAgent (task_id t) (no_updates\<lparr>upd_status := Some RUNNING, upd_progress := Some 0\<rparr>) orch"

text \<open>The part of the \<open>async\<close> callback after its \<open>await\<close>, run when the work settles.\<close>

definition settle_task :: "AgentTask \<Rightarrow> Orchestrator \<Rightarrow> Orchestrator" where
  "settle_task t orch =
     (case task_settles t of
        Inr result \<Rightarrow>
          updateAgent (task_id t)
            (no_updates\<lparr>upd_status := Some COMPLETED, upd_progress := Some 100,
                        upd_output := Some result\<rparr>) orch
      | Inl error \<Rightarrow>
          updateAgent (task_id t)
            (no_updates\<lparr>upd_status := Some FAILED,
                        upd_error := Some (message_or_unknown error)\<rparr>) orch)"

text \<open>\<open>results.forEach\<close>: the fulfilled results enter the output map in the tasks' order.\<close>

definition collect_result ::
  "(jsstring, jsstring) jsmap \<Rightarrow> AgentTask \<Rightarrow> (jsstring, jsstring) jsmap" where
  "collect_result outputMap t =
     (case task_settles t of
        Inr result \<Rightarrow> Map_set (task_id t) result outputMap
      | Inl error \<Rightarrow> outputMap)"

text \<open>
  \<open>runParallelAgents\<close>. The \<open>forEach\<close> registers every task. \<open>agentTasks.map\<close> then calls
  the \<open>async\<close> callback of every task in turn, and each call runs up to its \<open>await\<close>:
  every agent is set to RUNNING and every work function is started before any
  continuation runs. The continuations run as the work functions settle, in an order
  the code does not control: \<open>settle_order\<close> lists the tasks in that order.
  \<open>Promise.allSettled\<close> waits for all of them. The result is the final orchestrator
  and the output map.
\<close>

definition runParallelAgents ::
  "AgentTask list \<Rightarrow> AgentTask list \<Rightarrow> Orchestrator
     \<Rightarrow> Orchestrator \<times> (jsstring, jsstring) jsmap" where
  "runParallelAgents agentTasks settle_order orch =
     (let registered = foldl (\<lambda>orc t. register_task t orc) orch agentTasks;
          started = foldl (\<lambda>orc t. start_task t orc) registered agentTasks;
          settled = foldl (\<lambda>orc t. settle_task t orc) started settle_order;
          outputMap = foldl collect_result [] agentTasks
      in (settled, outputMap))"

text \<open>
  What the claims say of a batch: the agent a task ends as, and the entries of the
  tasks that resolved, in the tasks' order.
\<close>

definition final_agent :: "AgentTask \<Rightarrow> Agent" where
  "final_agent t =
     (case task_settles t of
        Inr result \<Rightarrow>
          \<lparr>agent_id = task_id t, agent_name = task_name t, agent_status = COMPLETED,
           agent_progress = 100, agent_output = Some result, agent_error = None\<rparr>
      | Inl error \<Rightarrow>
          \<lparr>agent_id = task_id t, agent_name = task_name t, agent_status = FAILED,
           agent_progress = 0, agent_output = None,
           agent_error = Some (message_or_unknown error)\<rparr>)"

text \<open>The fields that the continuation of a task assigns.\<close>

definition settle_updates :: "AgentTask \<Rightarrow> AgentUpdates" where
  "settle_updates t =
     (case task_settles t of
        Inr result \<Rightarrow>
          no_updates\<lparr>upd_status := Some COMPLETED, upd_progress := Some 100,
                      upd_output := Some result\<rparr>
      | Inl error \<Rightarrow>
          no_updates\<lparr>upd_status := Some FAILED, upd_error := Some (message_or_unknown error)\<rparr>)"

definition resolved_entries :: "AgentTask list \<Rightarrow> (jsstring, jsstring) jsmap" where
  "resolved_entries ts =
     List.map_filter
       (\<lambda>t. case task_settles t of Inr result \<Rightarrow> Some (task_id t, result) | Inl error \<Rightarrow> None) ts"

definition rejects :: "AgentTask \<Rightarrow> bool" where
  "rejects t = isl (task_settles t)"

definition empty_orchestrator :: Orchestrator where
  "empty_orchestrator = \<lparr>agents = [], notified = []\<rparr>"

text \<open>A task whose work rejects with \<open>new Error('')\<close>, and two tasks that share an id.\<close>

definition silent_failure :: AgentTask where
  "silent_failure =
     \<lparr>task_id = js ''s1'', task_name = js ''Writer 1'',
      task_settles = Inl (Error_instance (Text []))\<rparr>"

definition twin_a :: AgentTask where
  "twin_a = \<lparr>task_id = js ''s1'', task_name = js ''Writer 1'', task_settles = Inr (js ''x'')\<rparr>"

definition twin_b :: AgentTask where
  "twin_b = \<lparr>task_id = js ''s1'', task_name = js ''Writer 2'', task_settles = Inr (js ''y'')\<rparr>"

definition task_ok :: AgentTask where
  "task_ok = \<lparr>task_id = js ''s2'', task_name = js ''Writer 2'', task_settles = Inr (js ''done'')\<rparr>"

definition task_bad :: AgentTask where
  "task_bad =
     \<lparr>task_id = js ''s3'', task_name = js ''Writer 3'',
      task_settles = Inl (Error_instance (Text (js ''HTTP 500'')))\<rparr>"

section \<open>Strings: whitespace and \<open>trim\<close>\<close>

text \<open>
  ECMAScript's white space and line terminators: TAB, LF, VT, FF, CR, SPACE, NBSP,
  U+1680, U+2000 to U+200A, LS, PS, U+202F, U+205F, U+3000 and the BOM. \<open>trim\<close> removes
  them from both ends, and \<open>\s\<close> in a regular expression matches them.
\<close>

definition is_ws :: "jschar \<Rightarrow> bool" where
  "is_ws c =
     (c \<in> set [9, 10, 11, 12, 13, 32, 160, 5760, 8232, 8233, 8239, 8287, 12288, 65279]
      \<or> (8192 \<le> c \<and> c \<le> 8202))"

definition trim :: "jsstring \<Rightarrow> jsstring" where
  "trim s = rev (dropWhile is_ws (rev (dropWhile is_ws s)))"

text \<open>\<open>split(sep)\<close> with a separator of one code unit.\<close>

fun split :: "jschar \<Rightarrow> jsstring \<Rightarrow> jsstring list" where
  "split sep [] = [[]]"
| "split sep (c # cs) =
     (if c = sep then [] # split sep cs
      else (case split sep cs of [] \<Rightarrow> [[c]] | piece # pieces \<Rightarrow> (c # piece) # pieces))"

text \<open>
  \<open>toUpperCase\<close> on ASCII text, where it maps \<open>a\<close> to \<open>z\<close> onto \<open>A\<close> to \<open>Z\<close>. The
  program applies it only to what \<open>(PASS|FAIL)\<close> captured, which is ASCII.
\<close>

definition toUpperCase :: "jsstring \<Rightarrow> jsstring" where
  "toUpperCase s = map (\<lambda>c. if 97 \<le> c \<and> c \<le> 122 then c - 32 else c) s"

definition is_digit :: "jschar \<Rightarrow> bool" where
  "is_digit c = (48 \<le> c \<and> c \<le> 57)"

text \<open>
  \<open>parseInt(digits, 10)\<close> on a string of decimal digits, as \<open>(\d+)\<close> captures it. The
  model keeps the exact number; the engine's number is exact up to \<open>2^53\<close>.
\<close>

definition parseInt :: "jsstring \<Rightarrow> nat" where
  "parseInt digits = foldl (\<lambda>n d. 10 * n + (d - 48)) 0 digits"

section \<open>Regular expressions\<close>

text \<open>
  The regular expressions of the program use literal characters, the classes \<open>\s\<close>,
  \<open>\d\<close>, \<open>[\s\S]\<close> and a bracketed set, sequence, alternative, the greedy \<open>*\<close> and
  \<open>+\<close>, the lazy \<open>*?\<close>, \<open>?\<close>, capture groups, the lookahead \<open>(?=...)\<close>, and the
  anchors \<open>^\<close> and \<open>$\<close> (no \<open>m\<close> flag: start and end of the input).
\<close>

datatype cset = CAny | CSpace | CDigit | COneOf "jschar list"

datatype regex =
    Empty
  | Chr jschar
  | Cls cset
  | Seq regex regex
  | Alt regex regex
  | Star regex
  | LazyStar regex
  | Group nat regex
  | Look regex
  | Bol
  | Eol

definition Plus :: "regex \<Rightarrow> regex" where
  "Plus r = Seq r (Star r)"

definition Opt :: "regex \<Rightarrow> regex" where
  "Opt r = Alt r Empty"

text \<open>The characters of a literal, one after the other.\<close>

fun chars :: "jsstring \<Rightarrow> regex" where
  "chars [] = Empty"
| "chars (c # cs) = Seq (Chr c) (chars cs)"

definition lit :: "string \<Rightarrow> regex" where
  "lit s = chars (js s)"

fun in_cset :: "cset \<Rightarrow> jschar \<Rightarrow> bool" where
  "in_cset CAny c = True"
| "in_cset CSpace c = is_ws c"
| "in_cset CDigit c = is_digit c"
| "in_cset (COneOf cs) c = (c \<in> set cs)"

text \<open>
  Under the \<open>i\<close> flag two code units match when they canonicalize alike. Every literal
  of the program's patterns is ASCII, and an ASCII letter canonicalizes alike with its
  two ASCII forms only (a code unit from 128 on never canonicalizes below 128), so it
  is enough to fold \<open>a\<close> to \<open>z\<close> onto \<open>A\<close> to \<open>Z\<close>. The classes of the patterns hold no
  letter; the flag does not change them.
\<close>

definition canonicalize :: "bool \<Rightarrow> jschar \<Rightarrow> jschar" where
  "canonicalize ignoreCase c = (if ignoreCase \<and> 97 \<le> c \<and> c \<le> 122 then c - 32 else c)"

text \<open>
  The matcher is the backtracking matcher of the language specification, with the
  continuation written as a list of what is still to match. A state is the index
  reached, the input from there on, and the captures (the latest first). After an
  iteration of \<open>*\<close> the items \<open>StarAfter\<close> and \<open>LazyAfter\<close> go on with the repetition
  only when the iteration has moved the index, as the specification's empty check
  does; \<open>GroupEnd\<close> records the text a group has matched. No group of the program's
  patterns stands inside a repetition, so no capture is ever cleared at the start of
  an iteration.
\<close>

record mstate =
  pos :: nat
  rest :: jsstring
  caps :: "(nat \<times> jsstring) list"

datatype item =
    R regex
  | StarAfter regex nat
  | LazyAfter regex nat
  | GroupEnd nat nat jsstring

fun regex_weight :: "regex \<Rightarrow> nat" where
  "regex_weight (Seq r1 r2) = 1 + regex_weight r1 + regex_weight r2"
| "regex_weight (Alt r1 r2) = 1 + regex_weight r1 + regex_weight r2"
| "regex_weight (Star r) = 2 + regex_weight r"
| "regex_weight (LazyStar r) = 2 + regex_weight r"
| "regex_weight (Group i r) = 2 + regex_weight r"
| "regex_weight (Look r) = 1 + regex_weight r"
| "regex_weight r = 1"

fun item_weight :: "nat \<Rightarrow> item \<Rightarrow> nat" where
  "item_weight p (R r) = regex_weight r"
| "item_weight p (StarAfter r q) = (if q < p then 3 + regex_weight r else 0)"
| "item_weight p (LazyAfter r q) = (if q < p then 3 + regex_weight r else 0)"
| "item_weight p (GroupEnd i q s) = 1"

definition todo_weight :: "nat \<Rightarrow> item list \<Rightarrow> nat" where
  "todo_weight p todo = sum_list (map (item_weight p) todo)"

function (sequential) matcher :: "bool \<Rightarrow> item list \<Rightarrow> mstate \<Rightarrow> mstate option" where
  "matcher ic [] st = Some st"
| "matcher ic (R Empty # todo) st = matcher ic todo st"
| "matcher ic (R (Chr c) # todo) st =
     (case rest st of
        [] \<Rightarrow> None
      | x # xs \<Rightarrow>
          if canonicalize ic x = canonicalize ic c
          then matcher ic todo (st\<lparr>pos := pos st + 1, rest := xs\<rparr>)
          else None)"
| "matcher ic (R (Cls cls) # todo) st =
     (case rest st of
        [] \<Rightarrow> None
      | x # xs \<Rightarrow>
          if in_cset cls x
          then matcher ic todo (st\<lparr>pos := pos st + 1, rest := xs\<rparr>)
          else None)"
| "matcher ic (R (Seq r1 r2) # todo) st = matcher ic (R r1 # R r2 # todo) st"
| "matcher ic (R (Alt r1 r2) # todo) st =
     (case matcher ic (R r1 # todo) st of
        Some y \<Rightarrow> Some y
      | None \<Rightarrow> matcher ic (R r2 # todo) st)"
| "matcher ic (R (Star r) # todo) st =
     (case matcher ic (R r # StarAfter r (pos st) # todo) st of
        Some y \<Rightarrow> Some y
      | None \<Rightarrow> matcher ic todo st)"
| "matcher ic (StarAfter r p # todo) st =
     (if p < pos st then matcher ic (R (Star r) # todo) st else None)"
| "matcher ic (R (LazyStar r) # todo) st =
     (case matcher ic todo st of
        Some y \<Rightarrow> Some y
      | None \<Rightarrow> matcher ic (R r # LazyAfter r (pos st) # todo) st)"
| "matcher ic (LazyAfter r p # todo) st =
     (if p < pos st then matcher ic (R (LazyStar r) # todo) st else None)"
| "matcher ic (R (Group i r) # todo) st =
     matcher ic (R r # GroupEnd i (pos st) (rest st) # todo) st"
| "matcher ic (GroupEnd i p s0 # todo) st =
     matcher ic todo (st\<lparr>caps := (i, take (pos st - p) s0) # caps st\<rparr>)"
| "matcher ic (R (Look r) # todo) st =
     (case matcher ic [R r] st of
        None \<Rightarrow> None
      | Some st' \<Rightarrow> matcher ic todo (st\<lparr>caps := caps st'\<rparr>))"
| "matcher ic (R Bol # todo) st = (if pos st = 0 then matcher ic todo st else None)"
| "matcher ic (R Eol # todo) st = (if rest st = [] then matcher ic todo st else None)"
  by pat_completeness auto
termination
  by (relation "inv_image (less_than <*lex*> less_than)
        (\<lambda>(ic, todo, st). (length (rest st), todo_weight (pos st) todo))")
    (auto simp: todo_weight_def)

text \<open>
  \<open>text.match(regex)\<close> without the \<open>g\<close> flag: the first index from which the pattern
  matches, with the match (group 0) and the captures, or \<open>null\<close>.
\<close>

record MatchResult =
  m_index :: nat
  m_end :: nat
  m_groups :: "(nat \<times> jsstring) list"

fun search :: "bool \<Rightarrow> regex \<Rightarrow> nat \<Rightarrow> jsstring \<Rightarrow> MatchResult option" where
  "search ic r i [] =
     (case matcher ic [R r] \<lparr>pos = i, rest = [], caps = []\<rparr> of
        Some st \<Rightarrow> Some \<lparr>m_index = i, m_end = pos st, m_groups = (0, []) # caps st\<rparr>
      | None \<Rightarrow> None)"
| "search ic r i (x # xs) =
     (case matcher ic [R r] \<lparr>pos = i, rest = x # xs, caps = []\<rparr> of
        Some st \<Rightarrow>
          Some \<lparr>m_index = i, m_end = pos st,
                m_groups = (0, take (pos st - i) (x # xs)) # caps st\<rparr>
      | None \<Rightarrow> search ic r (i + 1) xs)"

definition match :: "bool \<Rightarrow> regex \<Rightarrow> jsstring \<Rightarrow> MatchResult option" where
  "match ic r s = search ic r 0 s"

text \<open>\<open>m[i]\<close>: the text of group \<open>i\<close>, or \<open>undefined\<close>.\<close>

definition group :: "MatchResult \<Rightarrow> nat \<Rightarrow> jsstring option" where
  "group m i = map_of (m_groups m) i"

text \<open>\<open>s.replace(regex, '')\<close> without the \<open>g\<close> flag: the first match is cut out.\<close>

definition remove_first :: "bool \<Rightarrow> regex \<Rightarrow> jsstring \<Rightarrow> jsstring" where
  "remove_first ic r s =
     (case match ic r s of None \<Rightarrow> s | Some m \<Rightarrow> take (m_index m) s @ drop (m_end m) s)"

section \<open>\<open>JSON.parse\<close>\<close>

text \<open>
  \<open>JSON.parse\<close> is part of the engine. It is modelled by a lexer for the JSON tokens and
  a parser that reads the tokens from left to right with a stack of the arrays and
  objects that are still open.
\<close>

datatype token =
    LBrace | RBrace | LBracket | RBracket | Comma | Colon
  | TString jsstring
  | TNumber rat
  | TTrue | TFalse | TNull

text \<open>JSON's white space: space, tab, line feed, carriage return.\<close>

definition is_json_ws :: "jschar \<Rightarrow> bool" where
  "is_json_ws c = (c = 32 \<or> c = 9 \<or> c = 10 \<or> c = 13)"

definition hex_digit :: "jschar \<Rightarrow> nat option" where
  "hex_digit c =
     (if 48 \<le> c \<and> c \<le> 57 then Some (c - 48)
      else if 97 \<le> c \<and> c \<le> 102 then Some (c - 87)
      else if 65 \<le> c \<and> c \<le> 70 then Some (c - 55)
      else None)"

text \<open>The code unit that the escape \<open>\c\<close> stands for (\<open>\u\<close> apart).\<close>

definition simple_escape :: "jschar \<Rightarrow> jschar option" where
  "simple_escape c =
     (if c = 34 then Some 34
      else if c = 92 then Some 92
      else if c = 47 then Some 47
      else if c = 98 then Some 8
      else if c = 102 then Some 12
      else if c = 110 then Some 10
      else if c = 114 then Some 13
      else if c = 116 then Some 9
      else None)"

text \<open>
  The characters of a string after its opening quote, up to the closing quote: the
  string's value and the input after the quote. A code unit below 32 is not allowed.
\<close>

fun lex_string :: "jsstring \<Rightarrow> jsstring \<Rightarrow> (jsstring \<times> jsstring) option" where
  "lex_string [] acc = None"
| "lex_string (c # cs) acc =
     (if c = 34 then Some (acc, cs)
      else if c = 92 then
        (case cs of
           [] \<Rightarrow> None
         | e # es \<Rightarrow>
             if e = 117 then
               (case es of
                  h1 # h2 # h3 # h4 # after \<Rightarrow>
                    (case (hex_digit h1, hex_digit h2, hex_digit h3, hex_digit h4) of
                       (Some d1, Some d2, Some d3, Some d4) \<Rightarrow>
                         lex_string after (acc @ [4096 * d1 + 256 * d2 + 16 * d3 + d4])
                     | _ \<Rightarrow> None)
                | _ \<Rightarrow> None)
             else
               (case simple_escape e of
                  None \<Rightarrow> None
                | Some v \<Rightarrow> lex_string es (acc @ [v])))
      else if c < 32 then None
      else lex_string cs (acc @ [c]))"

text \<open>
  A number: an optional minus, the integer part (\<open>0\<close>, or digits that do not start with
  \<open>0\<close>), an optional fraction and an optional exponent. Its value is the rational that
  the literal denotes.
\<close>

definition digits_of :: "jsstring \<Rightarrow> jsstring \<times> jsstring" where
  "digits_of s = (takeWhile is_digit s, dropWhile is_digit s)"

definition lex_int :: "jsstring \<Rightarrow> (jsstring \<times> jsstring) option" where
  "lex_int s =
     (case s of
        [] \<Rightarrow> None
      | c # cs \<Rightarrow>
          if c = 48 then Some ([48], cs)
          else if is_digit c then Some (digits_of s)
          else None)"

definition lex_frac :: "jsstring \<Rightarrow> (jsstring \<times> jsstring) option" where
  "lex_frac s =
     (case s of
        [] \<Rightarrow> Some ([], s)
      | c # cs \<Rightarrow>
          if c = 46
          then (case digits_of cs of (ds, after) \<Rightarrow> if ds = [] then None else Some (ds, after))
          else Some ([], s))"

definition lex_exp :: "jsstring \<Rightarrow> (int \<times> jsstring) option" where
  "lex_exp s =
     (case s of
        [] \<Rightarrow> Some (0, s)
      | c # cs \<Rightarrow>
          if c = 101 \<or> c = 69 then
            (case cs of
               [] \<Rightarrow> None
             | sc # more_cs \<Rightarrow>
                 (case digits_of (if sc = 43 \<or> sc = 45 then more_cs else cs) of
                    (ds, after) \<Rightarrow>
                      if ds = [] then None
                      else Some (if sc = 45 then - int (parseInt ds) else int (parseInt ds), after)))
          else Some (0, s))"

definition decimal :: "bool \<Rightarrow> jsstring \<Rightarrow> jsstring \<Rightarrow> int \<Rightarrow> rat" where
  "decimal negative ds fs e =
     (let mantissa = of_nat (parseInt (ds @ fs)) / 10 ^ length fs;
          scaled = (if 0 \<le> e then mantissa * 10 ^ nat e else mantissa / 10 ^ nat (- e))
      in if negative then - scaled else scaled)"

definition lex_number :: "jsstring \<Rightarrow> (rat \<times> jsstring) option" where
  "lex_number s =
     (let negative = (case s of [] \<Rightarrow> False | c # cs \<Rightarrow> c = 45);
          unsigned = (if negative then tl s else s)
      in case lex_int unsigned of
           None \<Rightarrow> None
         | Some (ds, s1) \<Rightarrow>
             (case lex_frac s1 of
                None \<Rightarrow> None
              | Some (fs, s2) \<Rightarrow>
                  (case lex_exp s2 of
                     None \<Rightarrow> None
                   | Some (e, s3) \<Rightarrow> Some (decimal negative ds fs e, s3))))"

datatype lexed = No_more | Token token jsstring | Bad_token

definition keyword :: "string \<Rightarrow> token \<Rightarrow> jsstring \<Rightarrow> lexed" where
  "keyword word t s =
     (if take (length word) s = js word then Token t (drop (length word) s) else Bad_token)"

definition next_token :: "jsstring \<Rightarrow> lexed" where
  "next_token s =
     (case dropWhile is_json_ws s of
        [] \<Rightarrow> No_more
      | c # cs \<Rightarrow>
          if c = 123 then Token LBrace cs
          else if c = 125 then Token RBrace cs
          else if c = 91 then Token LBracket cs
          else if c = 93 then Token RBracket cs
          else if c = 44 then Token Comma cs
          else if c = 58 then Token Colon cs
          else if c = 34 then
            (case lex_string cs [] of
               None \<Rightarrow> Bad_token
             | Some (v, after) \<Rightarrow> Token (TString v) after)
          else if c = 45 \<or> is_digit c then
            (case lex_number (c # cs) of
               None \<Rightarrow> Bad_token
             | Some (q, after) \<Rightarrow> Token (TNumber q) after)
          else if c = 116 then keyword ''true'' TTrue (c # cs)
          else if c = 102 then keyword ''false'' TFalse (c # cs)
          else if c = 110 then keyword ''null'' TNull (c # cs)
          else Bad_token)"

text \<open>Every token takes at least one character, so the lexer terminates.\<close>

lemma lex_string_shorter: "lex_string s acc = Some (v, r) \<Longrightarrow> length r < length s"
proof (induction s acc rule: lex_string.induct)
  case (1 acc)
  then show ?case by simp
next
  case (2 c cs acc)
  then show ?case
    by (auto split: if_splits list.splits option.splits prod.splits)
      (fastforce dest: less_SucI)+
qed

lemma digits_of_shorter: "digits_of s = (ds, r) \<Longrightarrow> length r \<le> length s"
  by (auto simp: digits_of_def length_dropWhile_le)

lemma lex_int_shorter: "lex_int s = Some (ds, r) \<Longrightarrow> length r < length s"
  by (cases s)
    (auto simp: lex_int_def digits_of_def is_digit_def less_Suc_eq_le length_dropWhile_le
      split: if_splits)

lemma lex_frac_shorter: "lex_frac s = Some (ds, r) \<Longrightarrow> length r \<le> length s"
  by (cases s)
    (auto simp: lex_frac_def digits_of_def split: if_splits
      intro: le_SucI length_dropWhile_le)

lemma lex_exp_shorter: "lex_exp s = Some (e, r) \<Longrightarrow> length r \<le> length s"
  by (cases s)
    (auto simp: lex_exp_def digits_of_def split: if_splits list.splits
      intro: le_SucI length_dropWhile_le)

lemma lex_number_shorter: "lex_number s = Some (q, r) \<Longrightarrow> length r < length s"
proof -
  assume a: "lex_number s = Some (q, r)"
  let ?u = "if (case s of [] \<Rightarrow> False | c # cs \<Rightarrow> c = 45) then tl s else s"
  from a obtain ds s1 fs s2 e where
    1: "lex_int ?u = Some (ds, s1)" and 2: "lex_frac s1 = Some (fs, s2)"
    and 3: "lex_exp s2 = Some (e, r)"
    by (auto simp: lex_number_def Let_def split: option.splits)
  have "length ?u \<le> length s"
    by simp
  with lex_int_shorter [OF 1] lex_frac_shorter [OF 2] lex_exp_shorter [OF 3]
  show ?thesis by linarith
qed

lemma next_token_shorter: "next_token s = Token t r \<Longrightarrow> length r < length s"
proof -
  assume a: "next_token s = Token t r"
  have le: "length (dropWhile is_json_ws s) \<le> length s"
    by (rule length_dropWhile_le)
  from a obtain c cs where s: "dropWhile is_json_ws s = c # cs"
    by (auto simp: next_token_def split: list.splits)
  have "length r \<le> length cs"
    using a s
    by (auto simp: next_token_def keyword_def split: if_splits option.splits
        dest!: lex_string_shorter lex_number_shorter)
  with le s show ?thesis by simp
qed

function tokens :: "jsstring \<Rightarrow> token list option" where
  "tokens s =
     (case next_token s of
        No_more \<Rightarrow> Some []
      | Bad_token \<Rightarrow> None
      | Token t after \<Rightarrow>
          (case tokens after of None \<Rightarrow> None | Some ts \<Rightarrow> Some (t # ts)))"
  by pat_completeness auto
termination
  by (relation "measure length") (auto dest: next_token_shorter)


text \<open>
  The parser. A frame is an array or an object that is still open; an object frame may
  hold the key whose value is awaited. A later member of the same name replaces the
  earlier one.
\<close>

datatype frame =
    Arr "jsval list"
  | Obj "(jsstring \<times> jsval) list"
  | ObjKey "(jsstring \<times> jsval) list" jsstring

datatype expect =
    Value_expected
  | Value_or_close
  | Key_expected
  | Key_or_close
  | Colon_expected
  | After_value
  | Finished jsval

fun complete_value :: "jsval \<Rightarrow> frame list \<Rightarrow> (frame list \<times> expect) option" where
  "complete_value v [] = Some ([], Finished v)"
| "complete_value v (Arr xs # frames) = Some (Arr (xs @ [v]) # frames, After_value)"
| "complete_value v (ObjKey ps k # frames) = Some (Obj (Map_set k v ps) # frames, After_value)"
| "complete_value v (Obj ps # frames) = None"

fun start_value :: "token \<Rightarrow> frame list \<Rightarrow> (frame list \<times> expect) option" where
  "start_value (TString s) frames = complete_value (JString s) frames"
| "start_value (TNumber q) frames = complete_value (JNumber q) frames"
| "start_value TTrue frames = complete_value (JBool True) frames"
| "start_value TFalse frames = complete_value (JBool False) frames"
| "start_value TNull frames = complete_value JNull frames"
| "start_value LBracket frames = Some (Arr [] # frames, Value_or_close)"
| "start_value LBrace frames = Some (Obj [] # frames, Key_or_close)"
| "start_value t frames = None"

fun close_array :: "frame list \<Rightarrow> (frame list \<times> expect) option" where
  "close_array (Arr xs # frames) = complete_value (JArray xs) frames"
| "close_array frames = None"

fun close_object :: "frame list \<Rightarrow> (frame list \<times> expect) option" where
  "close_object (Obj ps # frames) = complete_value (JObject ps) frames"
| "close_object frames = None"

fun take_key :: "jsstring \<Rightarrow> frame list \<Rightarrow> (frame list \<times> expect) option" where
  "take_key k (Obj ps # frames) = Some (ObjKey ps k # frames, Colon_expected)"
| "take_key k frames = None"

fun token_step :: "frame list \<times> expect \<Rightarrow> token \<Rightarrow> (frame list \<times> expect) option" where
  "token_step (frames, Value_expected) t = start_value t frames"
| "token_step (frames, Value_or_close) RBracket = close_array frames"
| "token_step (frames, Value_or_close) t = start_value t frames"
| "token_step (frames, Key_or_close) RBrace = close_object frames"
| "token_step (frames, Key_or_close) (TString k) = take_key k frames"
| "token_step (frames, Key_expected) (TString k) = take_key k frames"
| "token_step (frames, Colon_expected) Colon = Some (frames, Value_expected)"
| "token_step (Arr xs # frames, After_value) Comma = Some (Arr xs # frames, Value_expected)"
| "token_step (Arr xs # frames, After_value) RBracket = close_array (Arr xs # frames)"
| "token_step (Obj ps # frames, After_value) Comma = Some (Obj ps # frames, Key_expected)"
| "token_step (Obj ps # frames, After_value) RBrace = close_object (Obj ps # frames)"
| "token_step state t = None"

fun run_tokens :: "frame list \<times> expect \<Rightarrow> token list \<Rightarrow> (frame list \<times> expect) option" where
  "run_tokens state [] = Some state"
| "run_tokens state (t # ts) = (case token_step state t of None \<Rightarrow> None | Some state' \<Rightarrow> run_tokens state' ts)"

definition parse_tokens :: "token list \<Rightarrow> jsval option" where
  "parse_tokens ts =
     (case run_tokens ([], Value_expected) ts of
        Some ([], Finished v) \<Rightarrow> Some v
      | _ \<Rightarrow> None)"

definition JSON_parse :: "jsstring \<Rightarrow> thrown + jsval" where
  "JSON_parse s =
     (case tokens s of
        None \<Rightarrow> Inl (Error_instance (Engine_text SyntaxError))
      | Some ts \<Rightarrow>
          (case parse_tokens ts of
             None \<Rightarrow> Inl (Error_instance (Engine_text SyntaxError))
           | Some v \<Rightarrow> Inr v))"

declare tokens.simps [simp del]

section \<open>Operations on values\<close>

text \<open>Sequencing of steps that may throw, and \<open>try { ... } catch (e) { ... }\<close>.\<close>

definition and_then :: "thrown + 'a \<Rightarrow> ('a \<Rightarrow> thrown + 'b) \<Rightarrow> thrown + 'b" where
  "and_then r f = (case r of Inl error \<Rightarrow> Inl error | Inr v \<Rightarrow> f v)"

definition try_catch :: "thrown + 'a \<Rightarrow> (thrown \<Rightarrow> thrown + 'a) \<Rightarrow> thrown + 'a" where
  "try_catch r handler = (case r of Inl error \<Rightarrow> handler error | Inr v \<Rightarrow> Inr v)"

text \<open>
  Truthiness. A number is falsy when it is zero; the double nearest to a rational \<open>q\<close>
  is zero exactly when \<open>|q|\<close> is at most \<open>2^-1075\<close>, half of the least positive double.
\<close>

fun truthy :: "jsval \<Rightarrow> bool" where
  "truthy JUndefined = False"
| "truthy JNull = False"
| "truthy (JBool b) = b"
| "truthy (JNumber q) = (1 < \<bar>q\<bar> * 2 ^ 1075)"
| "truthy (JString s) = (s \<noteq> [])"
| "truthy (JArray xs) = True"
| "truthy (JObject ps) = True"

text \<open>\<open>a || b\<close>\<close>

definition js_or :: "jsval \<Rightarrow> jsval \<Rightarrow> jsval" where
  "js_or a b = (if truthy a then a else b)"

text \<open>
  \<open>v.name\<close> for the names the program reads from parsed model output: \<open>segments\<close>,
  \<open>Segments\<close>, \<open>title\<close>, \<open>Title\<close>, \<open>objective\<close>, \<open>Objective\<close>, \<open>guidance\<close>, \<open>Guidance\<close>
  and \<open>rationale\<close>. No prototype has a property of one of these names, so the read
  gives an object's own property or \<open>undefined\<close>, gives \<open>undefined\<close> on an array, a
  string, a number or a boolean, and throws a \<open>TypeError\<close> on \<open>undefined\<close> and \<open>null\<close>.
\<close>

fun property :: "jsval \<Rightarrow> string \<Rightarrow> thrown + jsval" where
  "property JUndefined name = Inl (Error_instance (Engine_text TypeError))"
| "property JNull name = Inl (Error_instance (Engine_text TypeError))"
| "property (JObject ps) name =
     Inr (case map_of ps (js name) of None \<Rightarrow> JUndefined | Some v \<Rightarrow> v)"
| "property v name = Inr JUndefined"

text \<open>
  \<open>v.map((element, index) => ...)\<close> on a value that came from \<open>JSON.parse\<close> or is
  \<open>undefined\<close>: an array maps its elements in order, and the first callback that throws
  ends the call; on anything else the call throws a \<open>TypeError\<close>, because \<open>undefined\<close>
  and \<open>null\<close> have no properties and the \<open>map\<close> of another value is no function.
\<close>

fun map_elements :: "(jsval \<Rightarrow> nat \<Rightarrow> thrown + 'a) \<Rightarrow> jsval list \<Rightarrow> nat \<Rightarrow> thrown + 'a list" where
  "map_elements f [] index = Inr []"
| "map_elements f (x # xs) index =
     (case f x index of
        Inl error \<Rightarrow> Inl error
      | Inr y \<Rightarrow>
          (case map_elements f xs (index + 1) of
             Inl error \<Rightarrow> Inl error
           | Inr ys \<Rightarrow> Inr (y # ys)))"

fun array_map :: "jsval \<Rightarrow> (jsval \<Rightarrow> nat \<Rightarrow> thrown + 'a) \<Rightarrow> thrown + 'a list" where
  "array_map (JArray xs) f = map_elements f xs 0"
| "array_map v f = Inl (Error_instance (Engine_text TypeError))"

text \<open>
  A non-negative integer in a template literal: its decimal digits. (\<open>Date.now()\<close> and
  an array index are below \<open>10^21\<close>, where the engine would switch to an exponent.)
\<close>

function number_toString :: "nat \<Rightarrow> jsstring" where
  "number_toString n =
     (if n < 10 then [48 + n] else number_toString (n div 10) @ [48 + n mod 10])"
  by pat_completeness auto
termination
  by (relation "measure (\<lambda>n. n)") auto

declare number_toString.simps [simp del]

section \<open>The gap-analysis agent's parser (\<open>services/gap-analysis.agent.ts\<close>)\<close>

text \<open>\<open>/```json\s*([\s\S]*?)\s*```/\<close>; the backtick is the code unit 96.\<close>

definition rx_fence :: regex where
  "rx_fence =
     Seq (chars [96, 96, 96])
       (Seq (lit ''json'')
          (Seq (Star (Cls CSpace))
             (Seq (Group 1 (LazyStar (Cls CAny)))
                (Seq (Star (Cls CSpace)) (chars [96, 96, 96])))))"

text \<open>
  The callback of \<open>suggestions.map\<close>. \<open>Date.now()\<close> is read anew for every element:
  \<open>nowAt i\<close> is the clock when the callback runs for index \<open>i\<close>.
\<close>

definition gap_id :: "nat \<Rightarrow> nat \<Rightarrow> jsstring" where
  "gap_id now i = js ''gap-'' @ number_toString now @ js ''-'' @ number_toString i"

definition gap_suggestion :: "(nat \<Rightarrow> nat) \<Rightarrow> jsval \<Rightarrow> nat \<Rightarrow> thrown + GapSuggestion" where
  "gap_suggestion nowAt s i =
     and_then (property s ''title'') (\<lambda>title.
     and_then (property s ''objective'') (\<lambda>objective.
     and_then (property s ''guidance'') (\<lambda>guidance.
     and_then (property s ''rationale'') (\<lambda>rationale.
       Inr \<lparr>gs_id = gap_id (nowAt i) i,
            gs_title = title,
            gs_objective = objective,
            gs_guidance = guidance,
            gs_rationale = js_or rationale (JString (js ''No rationale provided''))\<rparr>))))"

text \<open>
  \<open>parseGapSuggestions\<close>. The result is a sum so that "does not throw" can be said of
  it. (\<open>console.error\<close> is not modelled.) \<open>jsonMatch[1]\<close> takes part in every match;
  were it \<open>undefined\<close>, \<open>JSON.parse\<close> would throw a \<open>SyntaxError\<close>.
\<close>

definition parseGapSuggestions :: "(nat \<Rightarrow> nat) \<Rightarrow> jsstring \<Rightarrow> thrown + GapSuggestion list" where
  "parseGapSuggestions nowAt text =
     (case match False rx_fence text of
        None \<Rightarrow> Inr []
      | Some jsonMatch \<Rightarrow>
          try_catch
            (and_then
               (case group jsonMatch 1 of
                  None \<Rightarrow> Inl (Error_instance (Engine_text SyntaxError))
                | Some body \<Rightarrow> JSON_parse body)
               (\<lambda>suggestions. array_map suggestions (gap_suggestion nowAt)))
            (\<lambda>e. Inr []))"

text \<open>
  What the claims call a fenced block: somewhere in the text the opening fence
  \<open>```json\<close> and, after it, the closing fence \<open>```\<close>.
\<close>

definition has_fenced_block :: "jsstring \<Rightarrow> bool" where
  "has_fenced_block text =
     (\<exists>before body after. text = before @ ([96, 96, 96] @ js ''json'') @ body @ [96, 96, 96] @ after)"

section \<open>Framework generation (\<open>services/planner.agent.ts\<close>)\<close>

text \<open>\<open>/\{[\s\S]*\}/\<close>\<close>

definition rx_object :: regex where
  "rx_object = Seq (Chr 123) (Seq (Star (Cls CAny)) (Chr 125))"

definition segment_id :: "nat \<Rightarrow> nat \<Rightarrow> jsstring" where
  "segment_id now i = js ''segment-'' @ number_toString now @ js ''-'' @ number_toString i"

text \<open>The callback of \<open>parsed.segments.map\<close> in \<open>PlannerAgent.generateFramework\<close>.\<close>

definition planner_segment :: "(nat \<Rightarrow> nat) \<Rightarrow> jsval \<Rightarrow> nat \<Rightarrow> thrown + FrameworkSegment" where
  "planner_segment nowAt seg index =
     and_then (property seg ''title'') (\<lambda>title.
     and_then (property seg ''objective'') (\<lambda>objective.
     and_then (property seg ''guidance'') (\<lambda>guidance.
       Inr \<lparr>fs_id = segment_id (nowAt index) index,
            fs_title = title,
            fs_objective = objective,
            fs_guidance = guidance,
            fs_order = index\<rparr>)))"

text \<open>
  The arguments of \<open>generateFramework\<close> that its result uses, and the clock: \<open>created\<close>
  is the time of \<open>new Date()\<close>.
\<close>

record FrameworkRequest =
  req_contextUnderstanding :: jsstring
  req_analysisObjective :: jsstring
  req_metadataTags :: "jsstring list"
  req_created :: nat

text \<open>The statements of the \<open>try\<close> block after \<open>logResponse\<close> (the source's lines 277 to 300).\<close>

definition assemble_framework ::
  "FrameworkRequest \<Rightarrow> (nat \<Rightarrow> nat) \<Rightarrow> jsstring \<Rightarrow> thrown + AnalysisFramework" where
  "assemble_framework req nowAt text =
     (case match False rx_object text of
        None \<Rightarrow> Inl (Error_instance (Text (js ''Failed to parse framework response'')))
      | Some jsonMatch \<Rightarrow>
          and_then
            (case group jsonMatch 0 of
               None \<Rightarrow> Inl (Error_instance (Engine_text SyntaxError))
             | Some json \<Rightarrow> JSON_parse json) (\<lambda>parsed.
          and_then (property parsed ''segments'') (\<lambda>parsed_segments.
          and_then (array_map parsed_segments (planner_segment nowAt)) (\<lambda>segments.
            Inr \<lparr>fw_metadata =
                   \<lparr>md_title = js ''Analysis: '' @ req_contextUnderstanding req,
                    md_created = req_created req,
                    md_objective = req_analysisObjective req,
                    md_tags = req_metadataTags req\<rparr>,
                 fw_segments = segments\<rparr>))))"

text \<open>
  The page of phase 2 (\<open>pages/Phase2_ProcessingValidation.tsx\<close>) parses the same kind of
  response once more, after streaming it: the callback of \<open>rawSegments.map\<close> and the
  statements from the match to the segment list (the source's lines 45 to 55). The
  result is \<open>None\<close> when the pattern does not match (the page then does nothing).
\<close>

definition page_segment :: "(nat \<Rightarrow> nat) \<Rightarrow> jsval \<Rightarrow> nat \<Rightarrow> thrown + FrameworkSegment" where
  "page_segment nowAt seg index =
     and_then (property seg ''title'') (\<lambda>title.
     and_then (property seg ''Title'') (\<lambda>Title.
     and_then (property seg ''objective'') (\<lambda>objective.
     and_then (property seg ''Objective'') (\<lambda>Objective.
     and_then (property seg ''guidance'') (\<lambda>guidance.
     and_then (property seg ''Guidance'') (\<lambda>Guidance.
       Inr \<lparr>fs_id = segment_id (nowAt index) index,
            fs_title = js_or (js_or title Title) (JString (js ''Untitled Segment'')),
            fs_objective = js_or (js_or objective Objective) (JString (js ''No objective provided'')),
            fs_guidance = js_or (js_or guidance Guidance) (JString (js ''No guidance provided'')),
            fs_order = index\<rparr>))))))"

definition page_segments ::
  "(nat \<Rightarrow> nat) \<Rightarrow> jsstring \<Rightarrow> (thrown + FrameworkSegment list) option" where
  "page_segments nowAt fullText =
     (case match False rx_object fullText of
        None \<Rightarrow> None
      | Some jsonMatch \<Rightarrow>
          Some
            (and_then
               (case group jsonMatch 0 of
                  None \<Rightarrow> Inl (Error_instance (Engine_text SyntaxError))
                | Some json \<Rightarrow> JSON_parse json) (\<lambda>parsed.
             and_then (property parsed ''segments'') (\<lambda>lower.
             and_then (property parsed ''Segments'') (\<lambda>upper.
               array_map (js_or (js_or lower upper) (JArray [])) (page_segment nowAt))))))"

section \<open>The critic (\<open>services/critic.agent.ts\<close>)\<close>

text \<open>\<open>/## Source Alignment\s+(PASS|FAIL)/i\<close>\<close>

definition rx_alignment :: regex where
  "rx_alignment =
     Seq (lit ''## Source Alignment'')
       (Seq (Plus (Cls CSpace)) (Group 1 (Alt (lit ''PASS'') (lit ''FAIL''))))"

text \<open>\<open>/## Source Alignment[\s\S]*?(?=## Objective Fulfillment|$)/i\<close>\<close>

definition rx_issues :: regex where
  "rx_issues =
     Seq (lit ''## Source Alignment'')
       (Seq (LazyStar (Cls CAny)) (Look (Alt (lit ''## Objective Fulfillment'') Eol)))"

text \<open>\<open>/^[-\<bullet>*]\s+/\<close>: a hyphen (45), a bullet (U+2022) or an asterisk (42).\<close>

definition rx_bullet :: regex where
  "rx_bullet = Seq Bol (Seq (Cls (COneOf [45, 8226, 42])) (Plus (Cls CSpace)))"

text \<open>\<open>/Score:\s*(\d+)%?/i\<close>\<close>

definition rx_score :: regex where
  "rx_score =
     Seq (lit ''Score:'')
       (Seq (Star (Cls CSpace)) (Seq (Group 1 (Plus (Cls CDigit))) (Opt (Chr 37))))"

text \<open>\<open>/## Improvement Guidance\s+([\s\S]*?)(?=##|$)/i\<close>\<close>

definition rx_guidance :: regex where
  "rx_guidance =
     Seq (lit ''## Improvement Guidance'')
       (Seq (Plus (Cls CSpace))
          (Seq (Group 1 (LazyStar (Cls CAny))) (Look (Alt (lit ''##'') Eol))))"

text \<open>The loop over the lines of the issues section.\<close>

fun bullet_lines :: "jsstring list \<Rightarrow> jsstring list \<Rightarrow> jsstring list" where
  "bullet_lines [] sourceAlignmentIssues = sourceAlignmentIssues"
| "bullet_lines (line # lines) sourceAlignmentIssues =
     (if match False rx_bullet (trim line) \<noteq> None
      then bullet_lines lines
             (sourceAlignmentIssues @ [remove_first False rx_bullet (trim line)])
      else bullet_lines lines sourceAlignmentIssues)"

text \<open>
  The parsing of \<open>evaluateSegment\<close> (the source's lines 75 to 111): from the response
  text to the evaluation. A string is truthy when it is not empty.
\<close>

definition parse_evaluation :: "jsstring \<Rightarrow> nat \<Rightarrow> jsstring \<Rightarrow> CriticEvaluation" where
  "parse_evaluation segmentId now text =
     (let sourceAlignment =
            (case match True rx_alignment text of
               None \<Rightarrow> False
             | Some m \<Rightarrow>
                 (case group m 1 of
                    None \<Rightarrow> False
                  | Some verdict \<Rightarrow> toUpperCase verdict = js ''PASS''));
          sourceAlignmentIssues =
            (if \<not> sourceAlignment
             then (case match True rx_issues text of
                     None \<Rightarrow> []
                   | Some m \<Rightarrow>
                       (case group m 0 of
                          None \<Rightarrow> []
                        | Some issuesSection \<Rightarrow>
                            if issuesSection \<noteq> []
                            then bullet_lines (split 10 issuesSection) []
                            else []))
             else []);
          objectiveFulfillmentScore =
            (case match True rx_score text of
               None \<Rightarrow> 0
             | Some m \<Rightarrow> (case group m 1 of None \<Rightarrow> 0 | Some digits \<Rightarrow> parseInt digits));
          improvementGuidance =
            (case match True rx_guidance text of
               None \<Rightarrow> js ''No specific guidance provided''
             | Some m \<Rightarrow>
                 (case group m 1 of
                    None \<Rightarrow> js ''No specific guidance provided''
                  | Some g \<Rightarrow>
                      if trim g \<noteq> [] then trim g else js ''No specific guidance provided''))
      in \<lparr>ce_segmentId = segmentId,
          ce_evaluation = trim text,
          ce_sourceAlignment = sourceAlignment,
          ce_sourceAlignmentIssues =
            (if length sourceAlignmentIssues > 0 then Some sourceAlignmentIssues else None),
          ce_objectiveFulfillmentScore = objectiveFulfillmentScore,
          ce_improvementGuidance = improvementGuidance,
          ce_suggestions = [],
          ce_generatedAt = now\<rparr>)"

section \<open>The interaction logger and the facade, as the agents use them\<close>

text \<open>
  Modelled from the spec: \<open>services/agent-logger.service.ts\<close> is not among the
  sources. The spec gives its contract: \<open>logRequest(agentDisplayName, roleId,
  systemPrompt, userPrompt, model)\<close> returns the log id, \<open>logResponse(logId, content,
  durationMs, tokenUsage?)\<close> and \<open>logError(agentDisplayName, roleId, message)\<close> append
  the terminal entry. The model keeps the calls an agent makes on the logger, in order.
\<close>

record TokenUsage =
  tu_prompt :: nat
  tu_completion :: nat
  tu_total :: nat

datatype log_call =
    LogRequest jsstring jsstring jsstring jsstring jsstring
  | LogResponse jsstring jsstring int "TokenUsage option"
  | LogError jsstring jsstring message

text \<open>\<open>CompletionResult\<close> of \<open>services/llm.service.ts\<close>.\<close>

record Usage =
  prompt_tokens :: nat
  completion_tokens :: nat
  total_tokens :: nat

record CompletionResult =
  content :: jsstring
  usage :: "Usage option"

text \<open>
  What an agent operation takes from its surroundings before the \<open>try\<close> block: the
  system prompt (\<open>getAgentInstruction(...) || defaultPrompt\<close>), the user prompt (the
  template literal filled with the arguments), the model, the log id that \<open>logRequest\<close>
  returns, and the clock: \<open>Date.now()\<close> at the start and after the generation.
\<close>

record Invocation =
  systemPrompt :: jsstring
  userPrompt :: jsstring
  model :: jsstring
  logId :: jsstring
  startTime :: int
  endTime :: int

definition token_usage :: "Usage option \<Rightarrow> TokenUsage option" where
  "token_usage u =
     (case u of
        None \<Rightarrow> None
      | Some v \<Rightarrow>
          Some \<lparr>tu_prompt = prompt_tokens v, tu_completion = completion_tokens v,
                tu_total = total_tokens v\<rparr>)"

section \<open>The agent operations on one completion\<close>

text \<open>
  \<open>llmService.generateCompletion\<close> resolves with a \<open>CompletionResult\<close> or rejects: the
  argument \<open>completion\<close>. An operation returns the calls it made on the logger and
  either what it returns to its caller or what it throws.
\<close>

definition evaluateSegment ::
  "Invocation \<Rightarrow> jsstring \<Rightarrow> nat \<Rightarrow> thrown + CompletionResult
     \<Rightarrow> log_call list \<times> (thrown + CriticEvaluation)" where
  "evaluateSegment call segmentId now completion =
     (let request =
            LogRequest (js ''Critic Agent'') (js ''critic'') (systemPrompt call) (userPrompt call)
              (model call)
      in case completion of
           Inr result \<Rightarrow>
             ([request,
               LogResponse (logId call) (content result) (endTime call - startTime call)
                 (token_usage (usage result))],
              Inr (parse_evaluation segmentId now (content result)))
         | Inl error \<Rightarrow>
             ([request,
               LogError (js ''Critic Agent'') (js ''critic'') (message_or_unknown error)],
              Inl error))"

text \<open>\<open>WriterAgent.analyzeSegment\<close>: the \<open>catch\<close> clause returns an analysis.\<close>

definition analyzeSegment ::
  "Invocation \<Rightarrow> jsstring \<Rightarrow> nat \<Rightarrow> thrown + CompletionResult
     \<Rightarrow> log_call list \<times> (thrown + SegmentAnalysis)" where
  "analyzeSegment call segmentId now completion =
     (let request =
            LogRequest (js ''Writer Agent'') (js ''writer'') (systemPrompt call) (userPrompt call)
              (model call)
      in case completion of
           Inr result \<Rightarrow>
             ([request,
               LogResponse (logId call) (content result) (endTime call - startTime call)
                 (token_usage (usage result))],
              Inr \<lparr>sa_segmentId = segmentId, sa_content = trim (content result),
                    sa_status = status_complete, sa_generatedAt = Some now\<rparr>)
         | Inl error \<Rightarrow>
             ([request,
               LogError (js ''Writer Agent'') (js ''writer'') (message_or_unknown error)],
              Inr \<lparr>sa_segmentId = segmentId, sa_content = [], sa_status = status_error,
                    sa_generatedAt = None\<rparr>))"

definition rewriteSegment ::
  "Invocation \<Rightarrow> thrown + CompletionResult \<Rightarrow> log_call list \<times> (thrown + jsstring)" where
  "rewriteSegment call completion =
     (let request =
            LogRequest (js ''Writer Agent'') (js ''writer'') (systemPrompt call) (userPrompt call)
              (model call)
      in case completion of
           Inr result \<Rightarrow>
             ([request,
               LogResponse (logId call) (content result) (endTime call - startTime call)
                 (token_usage (usage result))],
              Inr (trim (content result)))
         | Inl error \<Rightarrow>
             ([request,
               LogError (js ''Writer Agent'') (js ''writer'') (message_or_unknown error)],
              Inl error))"

text \<open>
  \<open>PlannerAgent.generateFramework\<close>: whatever the \<open>try\<close> block throws, the completion's
  rejection or an error of the parsing, the \<open>catch\<close> clause logs and throws again.
\<close>

definition generateFramework ::
  "Invocation \<Rightarrow> FrameworkRequest \<Rightarrow> (nat \<Rightarrow> nat) \<Rightarrow> thrown + CompletionResult
     \<Rightarrow> log_call list \<times> (thrown + AnalysisFramework)" where
  "generateFramework call req nowAt completion =
     (let request =
            LogRequest (js ''Planner Agent'') (js ''planner'') (systemPrompt call) (userPrompt call)
              (model call)
      in case completion of
           Inl error \<Rightarrow>
             ([request,
               LogError (js ''Planner Agent'') (js ''planner'') (message_or_unknown error)],
              Inl error)
         | Inr result \<Rightarrow>
             (let response =
                    LogResponse (logId call) (content result) (endTime call - startTime call)
                      (token_usage (usage result))
              in case assemble_framework req nowAt (content result) of
                   Inr fw \<Rightarrow> ([request, response], Inr fw)
                 | Inl error \<Rightarrow>
                     ([request, response,
                       LogError (js ''Planner Agent'') (js ''planner'')
                         (message_or_unknown error)],
                      Inl error)))"

text \<open>The well-formed critic response of the spec's example.\<close>

definition critic_sample :: jsstring where
  "critic_sample =
     js ''## Source Alignment'' @ [10] @ js ''FAIL'' @ [10] @ js ''- unsupported claim A'' @ [10]
     @ js ''## Objective Fulfillment'' @ [10] @ js ''Score: 62%'' @ [10]
     @ js ''## Improvement Guidance'' @ [10] @ js ''Add citations.''"

section \<open>The streaming agent operations\<close>

text \<open>
  \<open>llmService.generateCompletionStream\<close> yields its chunks in order and then ends, or
  throws after some of them. The \<open>for await\<close> loop of an agent appends each chunk to
  \<open>fullResponse\<close> and yields it to the caller.
\<close>

record ChunkStream =
  chunks :: "jsstring list"
  failure :: "thrown option"

fun for_await :: "jsstring list \<Rightarrow> jsstring \<Rightarrow> jsstring list \<Rightarrow> jsstring \<times> jsstring list" where
  "for_await [] fullResponse yielded = (fullResponse, yielded)"
| "for_await (chunk # later) fullResponse yielded =
     for_await later (fullResponse @ chunk) (yielded @ [chunk])"

text \<open>
  A run of a generator that its caller reads to the end: the chunks the caller got, the
  calls on the logger, and the error the generator threw, if any.
\<close>

record StreamRun =
  yielded :: "jsstring list"
  logged :: "log_call list"
  thrown_error :: "thrown option"

text \<open>
  The six generators have the same body. They differ in the agent's name and role id,
  and in the text they hand to \<open>logResponse\<close>: \<open>fullResponse\<close> or \<open>fullResponse.trim()\<close>.
\<close>

definition stream_operation ::
  "jsstring \<Rightarrow> jsstring \<Rightarrow> (jsstring \<Rightarrow> jsstring) \<Rightarrow> Invocation \<Rightarrow> ChunkStream \<Rightarrow> StreamRun" where
  "stream_operation agentName roleId logged_text call stream =
     (let request = LogRequest agentName roleId (systemPrompt call) (userPrompt call) (model call);
          (fullResponse, out) = for_await (chunks stream) [] []
      in case failure stream of
           None \<Rightarrow>
             \<lparr>yielded = out,
              logged =
                [request,
                 LogResponse (logId call) (logged_text fullResponse) (endTime call - startTime call)
                   None],
              thrown_error = None\<rparr>
         | Some error \<Rightarrow>
             \<lparr>yielded = out,
              logged = [request, LogError agentName roleId (message_or_unknown error)],
              thrown_error = Some error\<rparr>)"

definition analyzeContextStream :: "Invocation \<Rightarrow> ChunkStream \<Rightarrow> StreamRun" where
  "analyzeContextStream = stream_operation (js ''Planner Agent'') (js ''planner'') trim"

definition proposeObjectiveStream :: "Invocation \<Rightarrow> ChunkStream \<Rightarrow> StreamRun" where
  "proposeObjectiveStream = stream_operation (js ''Planner Agent'') (js ''planner'') trim"

definition generateFrameworkStream :: "Invocation \<Rightarrow> ChunkStream \<Rightarrow> StreamRun" where
  "generateFrameworkStream =
     stream_operation (js ''Planner Agent'') (js ''planner'') (\<lambda>fullResponse. fullResponse)"

definition analyzeSegmentStream :: "Invocation \<Rightarrow> ChunkStream \<Rightarrow> StreamRun" where
  "analyzeSegmentStream =
     stream_operation (js ''Writer Agent'') (js ''writer'') (\<lambda>fullResponse. fullResponse)"

definition evaluateSegmentStream :: "Invocation \<Rightarrow> ChunkStream \<Rightarrow> StreamRun" where
  "evaluateSegmentStream =
     stream_operation (js ''Critic Agent'') (js ''critic'') (\<lambda>fullResponse. fullResponse)"

definition identifyGaps :: "Invocation \<Rightarrow> ChunkStream \<Rightarrow> StreamRun" where
  "identifyGaps =
     stream_operation (js ''Gap Analysis Agent'') (js ''identify-gaps'')
       (\<lambda>fullResponse. fullResponse)"

text \<open>The full text of the terminal \<open>response\<close> entry of a run, when it has one.\<close>

definition response_text :: "StreamRun \<Rightarrow> jsstring option" where
  "response_text run =
     (case last (logged run) of
        LogResponse i text d u \<Rightarrow> Some text
      | LogRequest a r sp up m \<Rightarrow> None
      | LogError a r msg \<Rightarrow> None)"

definition sample_invocation :: Invocation where
  "sample_invocation =
     \<lparr>systemPrompt = js ''system'', userPrompt = js ''user'', model = js ''gemini-2.0-flash-001'',
      logId = js ''log-1'', startTime = 1000, endTime = 1250\<rparr>"

text \<open>A stream of two chunks, the second a line feed, that ends without an error.\<close>

definition newline_stream :: ChunkStream where
  "newline_stream = \<lparr>chunks = [js ''Hi'', [10]], failure = None\<rparr>"

section \<open>Sample responses\<close>

text \<open>A JSON string literal with ASCII content: the content between double quotes.\<close>

definition quoted :: "string \<Rightarrow> jsstring" where
  "quoted s = [34] @ js s @ [34]"

text \<open>\<open>{"Segments":[{"title":"A","objective":"B","guidance":"C"}]}\<close>\<close>

definition capital_Segments_response :: jsstring where
  "capital_Segments_response =
     js ''{'' @ quoted ''Segments'' @ js '':[{'' @ quoted ''title'' @ js '':'' @ quoted ''A''
     @ js '','' @ quoted ''objective'' @ js '':'' @ quoted ''B''
     @ js '','' @ quoted ''guidance'' @ js '':'' @ quoted ''C'' @ js ''}]}''"

text \<open>\<open>{"segments":[{"Title":"A"}]}\<close>, and the response \<open>Here it is: {"segments":[{"Title":"A"}]}\<close>\<close>

definition capital_Title_json :: jsstring where
  "capital_Title_json =
     js ''{'' @ quoted ''segments'' @ js '':[{'' @ quoted ''Title'' @ js '':'' @ quoted ''A''
     @ js ''}]}''"

definition capital_Title_response :: jsstring where
  "capital_Title_response = js ''Here it is: '' @ capital_Title_json"

text \<open>
  \<open>{"segments":[{"title":"A","objective":"B","guidance":"C"}]}\<close>, and a response that
  has it between \<open>Plan:\<close> and \<open>Done.\<close>
\<close>

definition plain_json :: jsstring where
  "plain_json =
     js ''{'' @ quoted ''segments'' @ js '':[{'' @ quoted ''title'' @ js '':'' @ quoted ''A''
     @ js '','' @ quoted ''objective'' @ js '':'' @ quoted ''B''
     @ js '','' @ quoted ''guidance'' @ js '':'' @ quoted ''C'' @ js ''}]}''"

definition plain_response :: jsstring where
  "plain_response = js ''Plan: '' @ plain_json @ js '' Done.''"

text \<open>
  Gap-identification responses: one without a fenced block, one whose fenced block
  holds malformed JSON (\<open>[{"title": }]\<close>), and one with two suggestions of which the
  first carries an \<open>id\<close> of the model's choosing.
\<close>

definition no_fence_response :: jsstring where
  "no_fence_response = js ''I found no gaps.''"

definition malformed_json :: jsstring where
  "malformed_json = js ''[{'' @ quoted ''title'' @ js '': }]''"

definition malformed_response :: jsstring where
  "malformed_response =
     js ''Gaps:'' @ [10, 96, 96, 96] @ js ''json'' @ [10] @ malformed_json @ [10, 96, 96, 96]"

definition two_gaps_json :: jsstring where
  "two_gaps_json =
     js ''[{'' @ quoted ''id'' @ js '':'' @ quoted ''mine''
     @ js '','' @ quoted ''title'' @ js '':'' @ quoted ''T'' @ js ''},{''
     @ quoted ''rationale'' @ js '':'' @ quoted ''R'' @ js ''}]''"

definition two_gaps_response :: jsstring where
  "two_gaps_response = [96, 96, 96] @ js ''json'' @ [10] @ two_gaps_json @ [10, 96, 96, 96]"

text \<open>A clock that advances by one millisecond from one callback to the next.\<close>

definition sample_clock :: "nat \<Rightarrow> nat" where
  "sample_clock i = 1700000000000 + i"

section \<open>Sample states\<close>

definition sample_framework :: AnalysisFramework where
  "sample_framework =
     \<lparr>fw_metadata = \<lparr>md_title = js ''Analysis: c'', md_created = 1, md_objective = js ''o'',
                      md_tags = [js ''t'']\<rparr>,
      fw_segments =
        [\<lparr>fs_id = js ''segment-1-0'', fs_title = JString (js ''A''),
          fs_objective = JString (js ''B''), fs_guidance = JString (js ''C''), fs_order = 0\<rparr>]\<rparr>"

definition sample_suggestion :: GapSuggestion where
  "sample_suggestion =
     \<lparr>gs_id = js ''gap-1'', gs_title = JString (js ''T''), gs_objective = JString (js ''O''),
      gs_guidance = JString (js ''G''), gs_rationale = JString (js ''R'')\<rparr>"

definition sample_gapAnalysis :: GapAnalysis where
  "sample_gapAnalysis =
     \<lparr>ga_uncoveredThemes = [], ga_alternativePerspectives = [], ga_recommendations = [],
      ga_summary = [], ga_suggestions = [sample_suggestion],
      ga_analyzedGaps =
        [(js ''gap-1'', \<lparr>sa_segmentId = js ''gap-1'', sa_content = js ''text'',
                         sa_status = status_complete, sa_generatedAt = Some 5\<rparr>)],
      ga_newSegments = [], ga_generatedAt = 3\<rparr>"

definition sample_state :: AnalysisState where
  "sample_state =
     \<lparr>currentPhase = GAP_ANALYSIS, transcript = js ''some transcript'',
      plannerOutput = None, framework = Some sample_framework,
      segmentAnalyses = [], criticEvaluations = [], gapAnalysis = Some sample_gapAnalysis\<rparr>"

definition sample_analysis :: SegmentAnalysis where
  "sample_analysis =
     \<lparr>sa_segmentId = js ''gap-1'', sa_content = js ''text'', sa_status = status_complete,
      sa_generatedAt = Some 5\<rparr>"

section \<open>Facts about \<open>Map\<close> objects\<close>

lemma Map_get_set: "Map_get (Map_set k v m) k' = (if k' = k then Some v else Map_get m k')"
  by (induction m) (auto simp: Map_get_def)

lemma Map_get_delete: "Map_get (Map_delete k m) k' = (if k' = k then None else Map_get m k')"
  by (induction m) (auto simp: Map_get_def)

lemma Map_size_set:
  "Map_size (Map_set k v m) = (if Map_get m k = None then Map_size m + 1 else Map_size m)"
  by (induction m) (auto simp: Map_get_def Map_size_def)

lemma keys_Map_set: "fst ` set (Map_set k v m) = insert k (fst ` set m)"
  by (induction m) auto

lemma distinct_Map_set: "distinct (map fst m) \<Longrightarrow> distinct (map fst (Map_set k v m))"
proof (induction m)
  case Nil
  then show ?case by simp
next
  case (Cons p ps)
  have "fst ` set (Map_set k v ps) = insert k (fst ` set ps)"
    by (rule keys_Map_set)
  with Cons show ?case by auto
qed

section \<open>The phase gate\<close>

text \<open>
  C5 (as amended). \<open>canProceedToPhase\<close> is true for UPLOAD_ALIGN; for
  PROCESSING_VALIDATION exactly when the transcript is non-empty and a planner output
  exists; for INSIGHT_EXTRACTION exactly when a framework exists; for GAP_ANALYSIS and
  for CONSOLIDATION exactly when the segment-analysis map has at least one entry,
  whatever the status of the entries.
\<close>

theorem canProceedToPhase_gate:
  "canProceedToPhase state UPLOAD_ALIGN
   \<and> canProceedToPhase state PROCESSING_VALIDATION
       = (transcript state \<noteq> [] \<and> plannerOutput state \<noteq> None)
   \<and> canProceedToPhase state INSIGHT_EXTRACTION = (framework state \<noteq> None)
   \<and> canProceedToPhase state GAP_ANALYSIS = (segmentAnalyses state \<noteq> [])
   \<and> canProceedToPhase state CONSOLIDATION = (segmentAnalyses state \<noteq> [])"
  by (auto simp: Map_size_def)

text \<open>
  C5 (counterexample to the claim as stated). In a state whose only segment analysis has
  the status \<open>error\<close>, no completed segment analysis exists, and the gate to GAP_ANALYSIS
  and to CONSOLIDATION is open all the same.
\<close>

theorem canProceedToPhase_without_completed_analysis:
  "canProceedToPhase error_only_state GAP_ANALYSIS
   \<and> canProceedToPhase error_only_state CONSOLIDATION
   \<and> \<not> has_completed_analysis error_only_state"
  by (simp add: error_only_state_def has_completed_analysis_def Map_size_def)

section \<open>Promoting a gap suggestion\<close>

text \<open>
  C6. In a state with a framework and with a gap suggestion of id \<open>g\<close>, promoting the
  suggestion (handing it to \<open>addGapToMainAnalysis\<close>, or leaving the lookup by id to
  find it) appends exactly one segment to the framework, with the suggestion's id,
  title, objective and guidance; the segment-analysis map then has the analysis under
  \<open>g\<close> and is otherwise as before, one entry larger when \<open>g\<close> was new; and the
  in-progress gap map has no entry under \<open>g\<close> and is otherwise as before.
\<close>

theorem addGapToMainAnalysis_promotes:
  assumes fw: "framework prev = Some fw"
    and ga: "gapAnalysis prev = Some ga"
    and found: "find (\<lambda>s. gs_id s = g) (ga_suggestions ga) = Some sg"
    and arg: "suggestion = Some sg \<or> suggestion = None"
  shows "\<exists>fw' ga'.
           framework (addGapToMainAnalysis g analysis suggestion prev) = Some fw'
         \<and> fw_segments fw' =
             fw_segments fw @
               [\<lparr>fs_id = g, fs_title = gs_title sg, fs_objective = gs_objective sg,
                 fs_guidance = gs_guidance sg, fs_order = length (fw_segments fw) + 1\<rparr>]
         \<and> Map_get (segmentAnalyses (addGapToMainAnalysis g analysis suggestion prev)) g
             = Some analysis
         \<and> (\<forall>k. k \<noteq> g \<longrightarrow>
               Map_get (segmentAnalyses (addGapToMainAnalysis g analysis suggestion prev)) k
               = Map_get (segmentAnalyses prev) k)
         \<and> Map_size (segmentAnalyses (addGapToMainAnalysis g analysis suggestion prev))
             = (if Map_get (segmentAnalyses prev) g = None
                then Map_size (segmentAnalyses prev) + 1
                else Map_size (segmentAnalyses prev))
         \<and> gapAnalysis (addGapToMainAnalysis g analysis suggestion prev) = Some ga'
         \<and> Map_get (ga_analyzedGaps ga') g = None
         \<and> (\<forall>k. k \<noteq> g \<longrightarrow> Map_get (ga_analyzedGaps ga') k = Map_get (ga_analyzedGaps ga) k)"
proof -
  from found have idg: "gs_id sg = g"
    by (auto simp: find_Some_iff)
  from found arg ga have target: "targetSuggestion g suggestion prev = Some sg"
    by (auto simp: targetSuggestion_def)
  let ?st = "addGapToMainAnalysis g analysis suggestion prev"
  have f: "framework ?st = Some (fw\<lparr>fw_segments := fw_segments fw @ [newSegment sg fw]\<rparr>)"
    using fw target by (simp add: addGapToMainAnalysis_def Let_def)
  have s: "segmentAnalyses ?st = Map_set g analysis (segmentAnalyses prev)"
    by (simp add: addGapToMainAnalysis_def Let_def)
  have a: "gapAnalysis ?st = Some (ga\<lparr>ga_analyzedGaps := Map_delete g (ga_analyzedGaps ga)\<rparr>)"
    using ga by (simp add: addGapToMainAnalysis_def Let_def)
  show ?thesis
    using idg by (simp add: f s a newSegment_def Map_get_set Map_get_delete Map_size_set)
qed

text \<open>A state with a framework of one segment and a gap analysis with one suggestion.\<close>

theorem addGapToMainAnalysis_promotes_witness:
  "\<exists>fw' ga'.
      framework (addGapToMainAnalysis (js ''gap-1'') sample_analysis None sample_state) = Some fw'
    \<and> fw_segments fw' =
        fw_segments sample_framework @
          [\<lparr>fs_id = js ''gap-1'', fs_title = JString (js ''T''), fs_objective = JString (js ''O''),
            fs_guidance = JString (js ''G''), fs_order = 2\<rparr>]
    \<and> gapAnalysis (addGapToMainAnalysis (js ''gap-1'') sample_analysis None sample_state)
        = Some ga'
    \<and> Map_get (ga_analyzedGaps ga') (js ''gap-1'') = None"
proof -
  have fw: "framework sample_state = Some sample_framework"
    by (simp add: sample_state_def)
  have ga: "gapAnalysis sample_state = Some sample_gapAnalysis"
    by (simp add: sample_state_def)
  have found: "find (\<lambda>s. gs_id s = js ''gap-1'') (ga_suggestions sample_gapAnalysis)
                 = Some sample_suggestion"
    by (simp add: sample_gapAnalysis_def sample_suggestion_def)
  have arg: "None = Some sample_suggestion \<or> (None :: GapSuggestion option) = None"
    by simp
  have e: "length (fw_segments sample_framework) + 1 = 2"
    by (simp add: sample_framework_def)
  have f: "gs_title sample_suggestion = JString (js ''T'')"
    "gs_objective sample_suggestion = JString (js ''O'')"
    "gs_guidance sample_suggestion = JString (js ''G'')"
    by (simp_all add: sample_suggestion_def)
  from addGapToMainAnalysis_promotes [OF fw ga found arg, of sample_analysis]
  obtain fw' ga' where
    a: "framework (addGapToMainAnalysis (js ''gap-1'') sample_analysis None sample_state)
          = Some fw'"
    and b: "fw_segments fw' =
          fw_segments sample_framework @
            [\<lparr>fs_id = js ''gap-1'', fs_title = gs_title sample_suggestion,
              fs_objective = gs_objective sample_suggestion,
              fs_guidance = gs_guidance sample_suggestion,
              fs_order = length (fw_segments sample_framework) + 1\<rparr>]"
    and c: "gapAnalysis (addGapToMainAnalysis (js ''gap-1'') sample_analysis None sample_state)
          = Some ga'"
    and d: "Map_get (ga_analyzedGaps ga') (js ''gap-1'') = None"
    by (elim exE conjE) (rule that; assumption)
  from a b c d show ?thesis
    unfolding e f by (intro exI conjI)
qed

text \<open>
  C7. The segment that \<open>addGapToMainAnalysis\<close> appends has the order "prior segment
  count + 1", and a call changes nothing but the segment-analysis map, the framework's
  segment list and the in-progress gap map: \<open>criticEvaluations\<close>, \<open>transcript\<close>,
  \<open>plannerOutput\<close> and \<open>currentPhase\<close> are as before, the framework keeps its
  metadata (and is absent when it was absent), and the gap analysis keeps its other
  fields.
\<close>

theorem addGapToMainAnalysis_frame:
  "criticEvaluations (addGapToMainAnalysis g analysis suggestion prev) = criticEvaluations prev
   \<and> transcript (addGapToMainAnalysis g analysis suggestion prev) = transcript prev
   \<and> plannerOutput (addGapToMainAnalysis g analysis suggestion prev) = plannerOutput prev
   \<and> currentPhase (addGapToMainAnalysis g analysis suggestion prev) = currentPhase prev
   \<and> map_option fw_metadata (framework (addGapToMainAnalysis g analysis suggestion prev))
       = map_option fw_metadata (framework prev)
   \<and> map_option (\<lambda>ga. ga\<lparr>ga_analyzedGaps := []\<rparr>)
         (gapAnalysis (addGapToMainAnalysis g analysis suggestion prev))
       = map_option (\<lambda>ga. ga\<lparr>ga_analyzedGaps := []\<rparr>) (gapAnalysis prev)
   \<and> (case framework prev of
         None \<Rightarrow> framework (addGapToMainAnalysis g analysis suggestion prev) = None
       | Some fw \<Rightarrow>
           (case targetSuggestion g suggestion prev of
              None \<Rightarrow> framework (addGapToMainAnalysis g analysis suggestion prev) = Some fw
            | Some t \<Rightarrow>
                (case framework (addGapToMainAnalysis g analysis suggestion prev) of
                   None \<Rightarrow> False
                 | Some fw' \<Rightarrow>
                     butlast (fw_segments fw') = fw_segments fw
                   \<and> fw_segments fw' \<noteq> []
                   \<and> fs_order (last (fw_segments fw')) = length (fw_segments fw) + 1)))"
  by (simp add: addGapToMainAnalysis_def Let_def newSegment_def
      split: option.splits)

section \<open>Updating an agent that was never registered\<close>

text \<open>
  C10. \<open>updateAgent\<close> with an id that the agent map does not hold leaves the
  orchestrator as it is: the map is unchanged and no listener is called.
\<close>

theorem updateAgent_unregistered:
  assumes "Map_get (agents orch) ident = None"
  shows "updateAgent ident updates orch = orch"
  using assms by (simp add: updateAgent_def)

theorem updateAgent_unregistered_witness:
  "updateAgent (js ''ghost'') (no_updates\<lparr>upd_status := Some FAILED\<rparr>)
     \<lparr>agents = [(js ''a'', \<lparr>agent_id = js ''a'', agent_name = js ''A'', agent_status = RUNNING,
                            agent_progress = 0, agent_output = None, agent_error = None\<rparr>)],
      notified = []\<rparr>
   = \<lparr>agents = [(js ''a'', \<lparr>agent_id = js ''a'', agent_name = js ''A'', agent_status = RUNNING,
                            agent_progress = 0, agent_output = None, agent_error = None\<rparr>)],
      notified = []\<rparr>"
  by (rule updateAgent_unregistered) (simp add: Map_get_def js_def)


section \<open>Streamed generations\<close>

lemma for_await_eq:
  "for_await cs fullResponse out = (fullResponse @ concat cs, out @ cs)"
  by (induction cs arbitrary: fullResponse out) simp_all

lemma stream_operation_completes:
  assumes "failure stream = None"
  shows "yielded (stream_operation a r f call stream) = chunks stream"
    and "response_text (stream_operation a r f call stream) = Some (f (concat (chunks stream)))"
    and "thrown_error (stream_operation a r f call stream) = None"
  using assms by (simp_all add: stream_operation_def for_await_eq response_text_def)

text \<open>
  C1 (as amended). When the provider's stream ends without an error, every one of the
  six generators yields the provider's chunks in order and ends without throwing. For
  \<open>generateFrameworkStream\<close>, \<open>analyzeSegmentStream\<close>, \<open>evaluateSegmentStream\<close> and
  \<open>identifyGaps\<close> the text of the terminal response entry is the concatenation of the
  yielded chunks; for \<open>analyzeContextStream\<close> and \<open>proposeObjectiveStream\<close> it is that
  concatenation with the white space at both ends trimmed off.
\<close>

theorem streamed_text_is_logged:
  assumes "failure stream = None"
  shows "response_text (generateFrameworkStream call stream)
           = Some (concat (yielded (generateFrameworkStream call stream)))
       \<and> response_text (analyzeSegmentStream call stream)
           = Some (concat (yielded (analyzeSegmentStream call stream)))
       \<and> response_text (evaluateSegmentStream call stream)
           = Some (concat (yielded (evaluateSegmentStream call stream)))
       \<and> response_text (identifyGaps call stream)
           = Some (concat (yielded (identifyGaps call stream)))
       \<and> response_text (analyzeContextStream call stream)
           = Some (trim (concat (yielded (analyzeContextStream call stream))))
       \<and> response_text (proposeObjectiveStream call stream)
           = Some (trim (concat (yielded (proposeObjectiveStream call stream))))
       \<and> yielded (generateFrameworkStream call stream) = chunks stream
       \<and> yielded (analyzeSegmentStream call stream) = chunks stream
       \<and> yielded (evaluateSegmentStream call stream) = chunks stream
       \<and> yielded (identifyGaps call stream) = chunks stream
       \<and> yielded (analyzeContextStream call stream) = chunks stream
       \<and> yielded (proposeObjectiveStream call stream) = chunks stream"
  unfolding generateFrameworkStream_def analyzeSegmentStream_def evaluateSegmentStream_def
    identifyGaps_def analyzeContextStream_def proposeObjectiveStream_def
  by (simp add: stream_operation_completes [OF assms])

lemma trim_Hi_newline: "trim (js ''Hi'' @ [10]) = js ''Hi''"
  by (simp add: trim_def js_def is_ws_def)

theorem streamed_text_is_logged_witness:
  "response_text (generateFrameworkStream sample_invocation newline_stream)
     = Some (js ''Hi'' @ [10])
   \<and> response_text (analyzeContextStream sample_invocation newline_stream) = Some (js ''Hi'')
   \<and> yielded (identifyGaps sample_invocation newline_stream) = [js ''Hi'', [10]]"
proof -
  have f: "failure newline_stream = None"
    by (simp add: newline_stream_def)
  have c: "chunks newline_stream = [js ''Hi'', [10]]"
    by (simp add: newline_stream_def)
  from streamed_text_is_logged [OF f, of sample_invocation]
  show ?thesis
    by (simp add: c trim_Hi_newline)
qed

text \<open>
  C1 (counterexample to the claim as stated). \<open>analyzeContextStream\<close> and
  \<open>proposeObjectiveStream\<close> complete without error on the chunks \<open>"Hi"\<close>, \<open>"\n"\<close>, and the
  text they pass to the terminal response entry is \<open>"Hi"\<close>, which is not the
  concatenation \<open>"Hi\n"\<close> of the chunks they yielded.
\<close>

theorem trimmed_log_differs_from_chunks:
  "thrown_error (analyzeContextStream sample_invocation newline_stream) = None
   \<and> response_text (analyzeContextStream sample_invocation newline_stream)
       \<noteq> Some (concat (yielded (analyzeContextStream sample_invocation newline_stream)))
   \<and> thrown_error (proposeObjectiveStream sample_invocation newline_stream) = None
   \<and> response_text (proposeObjectiveStream sample_invocation newline_stream)
       \<noteq> Some (concat (yielded (proposeObjectiveStream sample_invocation newline_stream)))"
proof -
  have f: "failure newline_stream = None"
    by (simp add: newline_stream_def)
  have c: "chunks newline_stream = [js ''Hi'', [10]]"
    by (simp add: newline_stream_def)
  have d: "js ''Hi'' \<noteq> js ''Hi'' @ [10]"
    by simp
  show ?thesis
    unfolding analyzeContextStream_def proposeObjectiveStream_def
    using d by (simp add: stream_operation_completes [OF f] c trim_Hi_newline)
qed


section \<open>Parallel batches\<close>


lemma agents_notifyListeners: "agents (notifyListeners orch) = agents orch"
  by (simp add: notifyListeners_def)

lemma get_register_task:
  "Map_get (agents (register_task t orch)) k =
     (if k = task_id t
      then Some \<lparr>agent_id = task_id t, agent_name = task_name t, agent_status = IDLE,
                  agent_progress = 0, agent_output = None, agent_error = None\<rparr>
      else Map_get (agents orch) k)"
  by (simp add: register_task_def registerAgent_def agents_notifyListeners Map_get_set)

lemma get_updateAgent:
  "Map_get (agents (updateAgent i u orch)) k =
     (if k = i then map_option (\<lambda>a. Object_assign a u) (Map_get (agents orch) i)
      else Map_get (agents orch) k)"
  by (simp add: updateAgent_def agents_notifyListeners Map_get_set split: option.splits)

lemma get_start_task:
  "Map_get (agents (start_task t orch)) k =
     (if k = task_id t
      then map_option
             (\<lambda>a. Object_assign a (no_updates\<lparr>upd_status := Some RUNNING, upd_progress := Some 0\<rparr>))
             (Map_get (agents orch) k)
      else Map_get (agents orch) k)"
  by (simp add: start_task_def get_updateAgent)

lemma get_settle_task:
  "Map_get (agents (settle_task t orch)) k =
     (if k = task_id t
      then map_option (\<lambda>a. Object_assign a (settle_updates t)) (Map_get (agents orch) k)
      else Map_get (agents orch) k)"
  by (simp add: settle_task_def settle_updates_def get_updateAgent split: sum.splits)

lemma find_id_None:
  "k \<notin> task_id ` set ts \<Longrightarrow> find (\<lambda>t. task_id t = k) ts = None"
  by (induction ts) auto

lemma find_id_Some:
  "distinct (map task_id ts) \<Longrightarrow> t \<in> set ts \<Longrightarrow> find (\<lambda>t'. task_id t' = task_id t) ts = Some t"
  by (induction ts) (auto simp: image_iff)

lemma get_foldl_tasks:
  assumes step: "\<And>t orch k. Map_get (agents (f t orch)) k =
     (if k = task_id t then g t (Map_get (agents orch) k) else Map_get (agents orch) k)"
    and "distinct (map task_id ts)"
  shows "Map_get (agents (foldl (\<lambda>orc t. f t orc) orch ts)) k =
     (case find (\<lambda>t. task_id t = k) ts of
        None \<Rightarrow> Map_get (agents orch) k
      | Some t \<Rightarrow> g t (Map_get (agents orch) k))"
  using assms(2)
proof (induction ts arbitrary: orch)
  case Nil
  then show ?case by simp
next
  case (Cons t ts)
  then have d: "distinct (map task_id ts)" and n: "task_id t \<notin> task_id ` set ts"
    by auto
  have ih: "Map_get (agents (foldl (\<lambda>orc t. f t orc) (f t orch) ts)) k =
     (case find (\<lambda>t. task_id t = k) ts of
        None \<Rightarrow> Map_get (agents (f t orch)) k
      | Some t' \<Rightarrow> g t' (Map_get (agents (f t orch)) k))"
    by (rule Cons.IH [OF d])
  show ?case
  proof (cases "k = task_id t")
    case True
    with n have "find (\<lambda>t. task_id t = k) ts = None"
      by (simp add: find_id_None)
    with True ih show ?thesis
      by (simp add: step)
  next
    case False
    with ih show ?thesis
      by (simp add: step split: option.splits)
  qed
qed

lemma Map_set_new: "k \<notin> fst ` set m \<Longrightarrow> Map_set k v m = m @ [(k, v)]"
  by (induction m) auto

lemma foldl_collect_result:
  "distinct (map task_id ts) \<Longrightarrow> task_id ` set ts \<inter> fst ` set acc = {} \<Longrightarrow>
   foldl collect_result acc ts = acc @ resolved_entries ts"
proof (induction ts arbitrary: acc)
  case Nil
  then show ?case by (simp add: resolved_entries_def)
next
  case (Cons t ts)
  show ?case
  proof (cases "task_settles t")
    case (Inl e)
    with Cons show ?thesis
      by (simp add: collect_result_def resolved_entries_def)
  next
    case (Inr r)
    from Cons.prems have new: "task_id t \<notin> fst ` set acc"
      by auto
    from Cons.prems new have disj: "task_id ` set ts \<inter> fst ` set (acc @ [(task_id t, r)]) = {}"
      by auto
    from Cons.prems have d: "distinct (map task_id ts)"
      by simp
    from Inr new have "collect_result acc t = acc @ [(task_id t, r)]"
      by (simp add: collect_result_def Map_set_new)
    with Cons.IH [OF d disj] Inr show ?thesis
      by (simp add: resolved_entries_def)
  qed
qed

lemma length_resolved_entries:
  "length (resolved_entries ts) = length ts - length (filter rejects ts)"
proof (induction ts)
  case Nil
  then show ?case by (simp add: resolved_entries_def)
next
  case (Cons t ts)
  have "length (filter rejects ts) \<le> length ts"
    by simp
  with Cons show ?case
    by (cases "task_settles t")
      (simp_all add: resolved_entries_def rejects_def Suc_diff_le)
qed

lemma final_agent_eq:
  "Object_assign
     (Object_assign
        \<lparr>agent_id = task_id t, agent_name = task_name t, agent_status = IDLE,
          agent_progress = 0, agent_output = None, agent_error = None\<rparr>
        (no_updates\<lparr>upd_status := Some RUNNING, upd_progress := Some 0\<rparr>))
     (settle_updates t) = final_agent t"
  by (cases "task_settles t")
    (simp_all add: Object_assign_def no_updates_def settle_updates_def final_agent_def)

text \<open>
  C4 (as amended). For a batch of \<open>N\<close> tasks with pairwise different ids of which \<open>K\<close>
  reject, whatever the order in which the tasks settle: the returned map holds exactly
  the entries of the \<open>N - K\<close> tasks that resolved, each id with its resolved string, in
  the tasks' order; every task of the batch ends as the agent \<open>final_agent\<close> describes,
  which for a rejecting task has the status FAILED and as its error the message of the
  thrown \<open>Error\<close> (or "Unknown error" for another thrown value), and for a resolving
  task the status COMPLETED, progress 100 and the output; so what a task ends as depends
  on that task alone. Agents of other ids are as before.
\<close>

theorem runParallelAgents_isolation:
  assumes ids: "distinct (map task_id agentTasks)"
    and perm: "mset settle_order = mset agentTasks"
  shows "snd (runParallelAgents agentTasks settle_order orch) = resolved_entries agentTasks
       \<and> Map_size (snd (runParallelAgents agentTasks settle_order orch))
           = length agentTasks - length (filter rejects agentTasks)
       \<and> (\<forall>t \<in> set agentTasks.
             Map_get (agents (fst (runParallelAgents agentTasks settle_order orch))) (task_id t)
             = Some (final_agent t))
       \<and> (\<forall>k. k \<notin> task_id ` set agentTasks \<longrightarrow>
             Map_get (agents (fst (runParallelAgents agentTasks settle_order orch))) k
             = Map_get (agents orch) k)"
proof -
  let ?reg = "foldl (\<lambda>orc t. register_task t orc) orch agentTasks"
  let ?sta = "foldl (\<lambda>orc t. start_task t orc) ?reg agentTasks"
  let ?fin = "foldl (\<lambda>orc t. settle_task t orc) ?sta settle_order"
  have run: "runParallelAgents agentTasks settle_order orch
               = (?fin, foldl collect_result [] agentTasks)"
    by (simp add: runParallelAgents_def Let_def)
  from perm have set_eq: "set settle_order = set agentTasks"
    by (rule mset_eq_setD)
  from perm have "mset (map task_id settle_order) = mset (map task_id agentTasks)"
    by simp
  with ids have ids': "distinct (map task_id settle_order)"
    by (metis mset_eq_imp_distinct_iff)
  have out: "foldl collect_result [] agentTasks = resolved_entries agentTasks"
    using foldl_collect_result [OF ids, of "[]"] by simp
  have reg: "Map_get (agents ?reg) k =
      (case find (\<lambda>t. task_id t = k) agentTasks of
         None \<Rightarrow> Map_get (agents orch) k
       | Some t \<Rightarrow> Some \<lparr>agent_id = task_id t, agent_name = task_name t, agent_status = IDLE,
                          agent_progress = 0, agent_output = None, agent_error = None\<rparr>)" for k
    by (rule get_foldl_tasks [OF _ ids]) (simp add: get_register_task)
  have sta: "Map_get (agents ?sta) k =
      (case find (\<lambda>t. task_id t = k) agentTasks of
         None \<Rightarrow> Map_get (agents ?reg) k
       | Some t \<Rightarrow> map_option
           (\<lambda>a. Object_assign a (no_updates\<lparr>upd_status := Some RUNNING, upd_progress := Some 0\<rparr>))
           (Map_get (agents ?reg) k))" for k
    by (rule get_foldl_tasks [OF _ ids]) (simp add: get_start_task)
  have fin: "Map_get (agents ?fin) k =
      (case find (\<lambda>t. task_id t = k) settle_order of
         None \<Rightarrow> Map_get (agents ?sta) k
       | Some t \<Rightarrow> map_option (\<lambda>a. Object_assign a (settle_updates t)) (Map_get (agents ?sta) k))"
    for k
    by (rule get_foldl_tasks [OF _ ids']) (simp add: get_settle_task)
  have inside: "Map_get (agents ?fin) (task_id t) = Some (final_agent t)"
    if "t \<in> set agentTasks" for t
  proof -
    from that set_eq have "t \<in> set settle_order"
      by simp
    then have 1: "find (\<lambda>t'. task_id t' = task_id t) settle_order = Some t"
      by (rule find_id_Some [OF ids'])
    have 2: "find (\<lambda>t'. task_id t' = task_id t) agentTasks = Some t"
      using that by (rule find_id_Some [OF ids])
    show ?thesis
      by (simp add: fin sta reg 1 2 final_agent_eq)
  qed
  have outside: "Map_get (agents ?fin) k = Map_get (agents orch) k"
    if "k \<notin> task_id ` set agentTasks" for k
  proof -
    from that have 1: "find (\<lambda>t. task_id t = k) agentTasks = None"
      by (rule find_id_None)
    from that set_eq have "k \<notin> task_id ` set settle_order"
      by simp
    then have 2: "find (\<lambda>t. task_id t = k) settle_order = None"
      by (rule find_id_None)
    show ?thesis
      by (simp add: fin sta reg 1 2)
  qed
  show ?thesis
    by (simp add: run out Map_size_def length_resolved_entries inside outside)
qed


theorem runParallelAgents_isolation_witness:
  "snd (runParallelAgents [task_ok, task_bad] [task_bad, task_ok] empty_orchestrator)
     = [(js ''s2'', js ''done'')]
   \<and> Map_get
        (agents (fst (runParallelAgents [task_ok, task_bad] [task_bad, task_ok] empty_orchestrator)))
        (task_id task_bad)
     = Some \<lparr>agent_id = js ''s3'', agent_name = js ''Writer 3'', agent_status = FAILED,
              agent_progress = 0, agent_output = None,
              agent_error = Some (Text (js ''HTTP 500''))\<rparr>
   \<and> Map_get
        (agents (fst (runParallelAgents [task_ok, task_bad] [task_bad, task_ok] empty_orchestrator)))
        (task_id task_ok)
     = Some \<lparr>agent_id = js ''s2'', agent_name = js ''Writer 2'', agent_status = COMPLETED,
              agent_progress = 100, agent_output = Some (js ''done''), agent_error = None\<rparr>"
proof -
  have ids: "distinct (map task_id [task_ok, task_bad])"
    by (simp add: task_ok_def task_bad_def js_def)
  have perm: "mset [task_bad, task_ok] = mset [task_ok, task_bad]"
    by simp
  note all = runParallelAgents_isolation [OF ids perm, of empty_orchestrator]
  have out: "snd (runParallelAgents [task_ok, task_bad] [task_bad, task_ok] empty_orchestrator)
               = resolved_entries [task_ok, task_bad]"
    by (rule all [THEN conjunct1])
  have bad: "Map_get
        (agents (fst (runParallelAgents [task_ok, task_bad] [task_bad, task_ok] empty_orchestrator)))
        (task_id task_bad) = Some (final_agent task_bad)"
    by (rule all [THEN conjunct2, THEN conjunct2, THEN conjunct1, THEN bspec]) simp
  have ok: "Map_get
        (agents (fst (runParallelAgents [task_ok, task_bad] [task_bad, task_ok] empty_orchestrator)))
        (task_id task_ok) = Some (final_agent task_ok)"
    by (rule all [THEN conjunct2, THEN conjunct2, THEN conjunct1, THEN bspec]) simp
  show ?thesis
    unfolding out bad ok
    by (simp add: resolved_entries_def final_agent_def task_ok_def task_bad_def
        message_or_unknown_def)
qed

lemma run_silent_failure:
  "agents (fst (runParallelAgents [silent_failure] [silent_failure] empty_orchestrator))
     = [(js ''s1'', \<lparr>agent_id = js ''s1'', agent_name = js ''Writer 1'', agent_status = FAILED,
                     agent_progress = 0, agent_output = None, agent_error = Some (Text [])\<rparr>)]"
  by (simp add: runParallelAgents_def register_task_def registerAgent_def notifyListeners_def
      start_task_def settle_task_def updateAgent_def Map_get_def Object_assign_def no_updates_def
      silent_failure_def empty_orchestrator_def message_or_unknown_def)

lemma run_twins:
  "snd (runParallelAgents [twin_a, twin_b] [twin_a, twin_b] empty_orchestrator)
     = [(js ''s1'', js ''y'')]"
  by (simp add: runParallelAgents_def collect_result_def twin_a_def twin_b_def)

text \<open>
  C4 (counterexample to the claim as stated). A task whose work rejects with
  \<open>new Error('')\<close> ends FAILED with the empty string as its error message. And of
  two tasks with the same id that both resolve (\<open>N = 2\<close>, \<open>K = 0\<close>), the returned map
  has one entry.
\<close>

theorem runParallelAgents_empty_message_and_shared_id:
  "rejects silent_failure
   \<and> Map_get (agents (fst (runParallelAgents [silent_failure] [silent_failure] empty_orchestrator)))
        (task_id silent_failure)
       = Some \<lparr>agent_id = js ''s1'', agent_name = js ''Writer 1'', agent_status = FAILED,
                agent_progress = 0, agent_output = None, agent_error = Some (Text [])\<rparr>
   \<and> \<not> rejects twin_a \<and> \<not> rejects twin_b
   \<and> Map_size (snd (runParallelAgents [twin_a, twin_b] [twin_a, twin_b] empty_orchestrator)) = 1
   \<and> length [twin_a, twin_b] - length (filter rejects [twin_a, twin_b]) = 2"
proof -
  have a: "rejects silent_failure" "\<not> rejects twin_a" "\<not> rejects twin_b"
    by (simp_all add: rejects_def silent_failure_def twin_a_def twin_b_def)
  have b: "task_id silent_failure = js ''s1''"
    by (simp add: silent_failure_def)
  show ?thesis
    unfolding run_silent_failure run_twins b
    by (simp add: a Map_size_def Map_get_def)
qed

section \<open>The critic on the sample response\<close>

text \<open>The facts that evaluation by rewriting needs.\<close>

lemmas rx_eval = js_def lit_def Plus_def Opt_def is_ws_def is_digit_def canonicalize_def match_def

lemma alignment_sample: "match True rx_alignment critic_sample =
  Some \<lparr>m_index = 0, m_end = 24,
    m_groups = [(0, js ''## Source Alignment'' @ [10] @ js ''FAIL''), (1, js ''FAIL'')]\<rparr>"
  by (simp add: critic_sample_def rx_alignment_def rx_eval)

lemma issues_sample: "match True rx_issues critic_sample =
  Some \<lparr>m_index = 0, m_end = 47,
    m_groups = [(0, js ''## Source Alignment'' @ [10] @ js ''FAIL'' @ [10] @ js ''- unsupported claim A'' @ [10])]\<rparr>"
  by (simp add: critic_sample_def rx_issues_def rx_eval)

lemma score_sample: "match True rx_score critic_sample =
  Some \<lparr>m_index = 72, m_end = 82, m_groups = [(0, js ''Score: 62%''), (1, js ''62'')]\<rparr>"
  by (simp add: critic_sample_def rx_score_def rx_eval)

lemma guidance_sample: "match True rx_guidance critic_sample =
  Some \<lparr>m_index = 83, m_end = 121,
    m_groups = [(0, js ''## Improvement Guidance'' @ [10] @ js ''Add citations.''), (1, js ''Add citations.'')]\<rparr>"
  by (simp add: critic_sample_def rx_guidance_def rx_eval)


lemma trim_critic_sample: "trim critic_sample = critic_sample"
  by (simp add: critic_sample_def trim_def js_def is_ws_def)

lemma issues_lines_sample:
  "split 10 (js ''## Source Alignment'' @ 10 # js ''FAIL'' @ 10 # js ''- unsupported claim A'' @ [10])
   = [js ''## Source Alignment'', js ''FAIL'', js ''- unsupported claim A'', []]"
  by (simp add: js_def)

lemma bullet_line1: "match False rx_bullet (trim (js ''## Source Alignment'')) = None"
  by (simp add: rx_bullet_def trim_def rx_eval)

lemma bullet_line2: "match False rx_bullet (trim (js ''FAIL'')) = None"
  by (simp add: rx_bullet_def trim_def rx_eval)

lemma bullet_line3: "match False rx_bullet (trim (js ''- unsupported claim A''))
   = Some \<lparr>m_index = 0, m_end = 2, m_groups = [(0, js ''- '')]\<rparr>"
  by (simp add: rx_bullet_def trim_def rx_eval)

lemma bullet_line3_text: "remove_first False rx_bullet (trim (js ''- unsupported claim A'')) = js ''unsupported claim A''"
  unfolding remove_first_def bullet_line3 by (simp add: trim_def js_def is_ws_def)

lemma bullet_line4: "match False rx_bullet (trim []) = None"
  by (simp add: rx_bullet_def trim_def rx_eval)

lemma verdict_sample: "toUpperCase (js ''FAIL'') \<noteq> js ''PASS''"
  by (simp add: toUpperCase_def js_def)

lemma parseInt_sample: "parseInt (js ''62'') = 62"
  by (simp add: parseInt_def js_def)

lemma trim_guidance_sample: "trim (js ''Add citations.'') = js ''Add citations.''"
  by (simp add: trim_def js_def is_ws_def)

lemma guidance_sample_nonempty: "js ''Add citations.'' \<noteq> []"
  by (simp add: js_def)

lemma parse_critic_sample:
  "parse_evaluation segmentId now critic_sample =
     \<lparr>ce_segmentId = segmentId, ce_evaluation = critic_sample, ce_sourceAlignment = False,
      ce_sourceAlignmentIssues = Some [js ''unsupported claim A''],
      ce_objectiveFulfillmentScore = 62, ce_improvementGuidance = js ''Add citations.'',
      ce_suggestions = [], ce_generatedAt = now\<rparr>"
  unfolding parse_evaluation_def alignment_sample issues_sample score_sample guidance_sample group_def
  by (simp add: Let_def verdict_sample issues_lines_sample bullet_line1 bullet_line2 bullet_line3 bullet_line3_text bullet_line4 parseInt_sample trim_guidance_sample
      guidance_sample_nonempty trim_critic_sample)

text \<open>
  C8. Given the response text with the lines \<open>## Source Alignment\<close>, \<open>FAIL\<close>,
  \<open>- unsupported claim A\<close>, \<open>## Objective Fulfillment\<close>, \<open>Score: 62%\<close>,
  \<open>## Improvement Guidance\<close>, \<open>Add citations.\<close>, \<open>evaluateSegment\<close> returns an evaluation
  with \<open>sourceAlignment = false\<close>, \<open>sourceAlignmentIssues = ["unsupported claim A"]\<close>,
  \<open>objectiveFulfillmentScore = 62\<close> and \<open>improvementGuidance = "Add citations."\<close>.
\<close>

theorem critic_sample_parsed:
  "snd (evaluateSegment call segmentId now (Inr \<lparr>content = critic_sample, usage = u\<rparr>)) =
     Inr \<lparr>ce_segmentId = segmentId, ce_evaluation = critic_sample, ce_sourceAlignment = False,
          ce_sourceAlignmentIssues = Some [js ''unsupported claim A''],
          ce_objectiveFulfillmentScore = 62, ce_improvementGuidance = js ''Add citations.'',
          ce_suggestions = [], ce_generatedAt = now\<rparr>"
  by (simp add: evaluateSegment_def Let_def parse_critic_sample)

section \<open>\<open>JSON.parse\<close> on examples\<close>

lemmas json_eval = JSON_parse_def parse_tokens_def tokens.simps next_token_def is_json_ws_def
  keyword_def lex_number_def lex_int_def lex_frac_def lex_exp_def digits_of_def decimal_def
  is_digit_def parseInt_def simple_escape_def hex_digit_def js_def

lemma JSON_parse_empty_object: "JSON_parse (js ''{}'') = Inr (JObject [])"
  by (simp add: json_eval)

lemma JSON_parse_array: "JSON_parse (js ''[{'' @ [34] @ js ''title'' @ [34] @ js '': '' @ [34] @ js ''A'' @ [34] @ js ''}, null, 1.5e1, true]'')
   = Inr (JArray [JObject [(js ''title'', JString (js ''A''))], JNull, JNumber 15, JBool True])"
  by (simp add: json_eval)

lemma JSON_parse_trailing_comma: "JSON_parse (js ''[1,]'') = Inl (Error_instance (Engine_text SyntaxError))"
  by (simp add: json_eval)

lemma JSON_parse_missing_value: "JSON_parse (js ''{'' @ [34] @ js ''a'' @ [34] @ js '':}'') = Inl (Error_instance (Engine_text SyntaxError))"
  by (simp add: json_eval)

lemma JSON_parse_escapes: "JSON_parse ([34, 92] @ js ''u2022'' @ [92] @ js ''n'' @ [34]) = Inr (JString [8226, 10])"
  by (simp add: json_eval)

lemma JSON_parse_leading_zero: "JSON_parse (js ''01'') = Inl (Error_instance (Engine_text SyntaxError))"
  by (simp add: json_eval)

lemma JSON_parse_number: "JSON_parse (js '' -0.25 '') = Inr (JNumber (- 1 / 4))"
  by (simp add: json_eval)

section \<open>Facts about the matcher\<close>

lemma matcher_continues:
  "matcher ic todo st = Some y \<Longrightarrow> todo = xs @ ys \<Longrightarrow>
   \<exists>st'. suffix (rest st') (rest st) \<and> matcher ic ys st' = Some y"
proof (induction ic todo st arbitrary: xs rule: matcher.induct)
  case (1 ic st)
  then show ?case by auto
next
  case (2 ic todo st)
  show ?case
  proof (cases xs)
    case Nil
    with 2 show ?thesis by auto
  next
    case (Cons x xs')
    with 2 show ?thesis by auto
  qed
next
  case (3 ic c todo st)
  show ?case
  proof (cases xs)
    case Nil
    with 3 show ?thesis by auto
  next
    case (Cons x xs')
    with 3(2,3) obtain a as where r: "rest st = a # as" and c: "canonicalize ic a = canonicalize ic c"
      and m: "matcher ic todo (st\<lparr>pos := pos st + 1, rest := as\<rparr>) = Some y"
      and t: "todo = xs' @ ys"
      by (auto split: list.splits if_splits)
    from 3(1) [OF r c m t] obtain st' where
      "suffix (rest st') as" "matcher ic ys st' = Some y"
      by auto
    with r show ?thesis
      by (auto intro: suffix_ConsI)
  qed
next
  case (4 ic cls todo st)
  show ?case
  proof (cases xs)
    case Nil
    with 4 show ?thesis by auto
  next
    case (Cons x xs')
    with 4(2,3) obtain a as where r: "rest st = a # as" and c: "in_cset cls a"
      and m: "matcher ic todo (st\<lparr>pos := pos st + 1, rest := as\<rparr>) = Some y"
      and t: "todo = xs' @ ys"
      by (auto split: list.splits if_splits)
    from 4(1) [OF r c m t] obtain st' where
      "suffix (rest st') as" "matcher ic ys st' = Some y"
      by auto
    with r show ?thesis
      by (auto intro: suffix_ConsI)
  qed
next
  case (5 ic r1 r2 todo st)
  show ?case
  proof (cases xs)
    case Nil
    with 5 show ?thesis by auto
  next
    case (Cons x xs')
    with 5(2,3) have m: "matcher ic (R r1 # R r2 # todo) st = Some y"
      and t: "R r1 # R r2 # todo = (R r1 # R r2 # xs') @ ys"
      by auto
    from 5(1) [OF m t] show ?thesis .
  qed
next
  case (6 ic r1 r2 todo st)
  show ?case
  proof (cases xs)
    case Nil
    with 6 show ?thesis by auto
  next
    case (Cons x xs')
    with 6(4) have t1: "R r1 # todo = (R r1 # xs') @ ys" and t2: "R r2 # todo = (R r2 # xs') @ ys"
      by auto
    show ?thesis
    proof (cases "matcher ic (R r1 # todo) st")
      case None
      with 6(3) have "matcher ic (R r2 # todo) st = Some y"
        by simp
      from 6(2) [OF None this t2] show ?thesis .
    next
      case (Some z)
      with 6(3) have "matcher ic (R r1 # todo) st = Some y"
        by simp
      from 6(1) [OF this t1] show ?thesis .
    qed
  qed
next
  case (7 ic r todo st)
  show ?case
  proof (cases xs)
    case Nil
    with 7 show ?thesis by auto
  next
    case (Cons x xs')
    with 7(4) have t1: "R r # StarAfter r (pos st) # todo = (R r # StarAfter r (pos st) # xs') @ ys"
      and t2: "todo = xs' @ ys"
      by auto
    show ?thesis
    proof (cases "matcher ic (R r # StarAfter r (pos st) # todo) st")
      case None
      with 7(3) have "matcher ic todo st = Some y"
        by simp
      from 7(2) [OF None this t2] show ?thesis .
    next
      case (Some z)
      with 7(3) have "matcher ic (R r # StarAfter r (pos st) # todo) st = Some y"
        by simp
      from 7(1) [OF this t1] show ?thesis .
    qed
  qed
next
  case (8 ic r p todo st)
  show ?case
  proof (cases xs)
    case Nil
    with 8 show ?thesis by auto
  next
    case (Cons x xs')
    with 8(2,3) have p: "p < pos st" and m: "matcher ic (R (Star r) # todo) st = Some y"
      and t: "R (Star r) # todo = (R (Star r) # xs') @ ys"
      by (auto split: if_splits)
    from 8(1) [OF p m t] show ?thesis .
  qed
next
  case (9 ic r todo st)
  show ?case
  proof (cases xs)
    case Nil
    with 9 show ?thesis by auto
  next
    case (Cons x xs')
    with 9(4) have t1: "R r # LazyAfter r (pos st) # todo = (R r # LazyAfter r (pos st) # xs') @ ys"
      and t2: "todo = xs' @ ys"
      by auto
    show ?thesis
    proof (cases "matcher ic todo st")
      case None
      with 9(3) have "matcher ic (R r # LazyAfter r (pos st) # todo) st = Some y"
        by simp
      from 9(2) [OF None this t1] show ?thesis .
    next
      case (Some z)
      with 9(3) have "matcher ic todo st = Some y"
        by simp
      from 9(1) [OF this t2] show ?thesis .
    qed
  qed
next
  case (10 ic r p todo st)
  show ?case
  proof (cases xs)
    case Nil
    with 10 show ?thesis by auto
  next
    case (Cons x xs')
    with 10(2,3) have p: "p < pos st" and m: "matcher ic (R (LazyStar r) # todo) st = Some y"
      and t: "R (LazyStar r) # todo = (R (LazyStar r) # xs') @ ys"
      by (auto split: if_splits)
    from 10(1) [OF p m t] show ?thesis .
  qed
next
  case (11 ic i r todo st)
  show ?case
  proof (cases xs)
    case Nil
    with 11 show ?thesis by auto
  next
    case (Cons x xs')
    with 11(2,3) have m: "matcher ic (R r # GroupEnd i (pos st) (rest st) # todo) st = Some y"
      and t: "R r # GroupEnd i (pos st) (rest st) # todo
                = (R r # GroupEnd i (pos st) (rest st) # xs') @ ys"
      by auto
    from 11(1) [OF m t] show ?thesis .
  qed
next
  case (12 ic i p s0 todo st)
  show ?case
  proof (cases xs)
    case Nil
    with 12 show ?thesis by auto
  next
    case (Cons x xs')
    with 12(2,3) have m: "matcher ic todo (st\<lparr>caps := (i, take (pos st - p) s0) # caps st\<rparr>) = Some y"
      and t: "todo = xs' @ ys"
      by auto
    from 12(1) [OF m t] show ?thesis by simp
  qed
next
  case (13 ic r todo st)
  show ?case
  proof (cases xs)
    case Nil
    with 13 show ?thesis by auto
  next
    case (Cons x xs')
    with 13(3,4) obtain st1 where l: "matcher ic [R r] st = Some st1"
      and m: "matcher ic todo (st\<lparr>caps := caps st1\<rparr>) = Some y" and t: "todo = xs' @ ys"
      by (auto split: option.splits)
    from 13(2) [OF l m t] show ?thesis by simp
  qed
next
  case (14 ic todo st)
  show ?case
  proof (cases xs)
    case Nil
    with 14 show ?thesis by auto
  next
    case (Cons x xs')
    with 14 show ?thesis by (auto split: if_splits)
  qed
next
  case (15 ic todo st)
  show ?case
  proof (cases xs)
    case Nil
    with 15 show ?thesis by auto
  next
    case (Cons x xs')
    with 15 show ?thesis by (auto split: if_splits)
  qed
qed

lemma matcher_chars:
  "matcher False (R (chars w) # todo) st = Some y \<Longrightarrow>
   \<exists>st'. rest st = w @ rest st' \<and> matcher False todo st' = Some y"
proof (induction w arbitrary: st)
  case Nil
  then show ?case by auto
next
  case (Cons c w)
  from Cons.prems obtain xs where r: "rest st = c # xs"
    and m: "matcher False (R (chars w) # todo) (st\<lparr>pos := pos st + 1, rest := xs\<rparr>) = Some y"
    by (auto simp: canonicalize_def split: list.splits if_splits)
  from Cons.IH [OF m] r show ?case by auto
qed


lemma matcher_Seq:
  "matcher ic (R (Seq r1 r2) # todo) st = matcher ic (R r1 # R r2 # todo) st"
  by simp

lemma search_matcher:
  "search ic r i s = Some m \<Longrightarrow>
   \<exists>k y. matcher ic [R r] \<lparr>pos = i + k, rest = drop k s, caps = []\<rparr> = Some y"
proof (induction s arbitrary: i)
  case Nil
  then obtain y where "matcher ic [R r] \<lparr>pos = i, rest = [], caps = []\<rparr> = Some y"
    by (auto split: option.splits)
  then have "matcher ic [R r] \<lparr>pos = i + 0, rest = drop 0 [], caps = []\<rparr> = Some y"
    by simp
  then show ?case by blast
next
  case (Cons x xs)
  show ?case
  proof (cases "matcher ic [R r] \<lparr>pos = i, rest = x # xs, caps = []\<rparr>")
    case None
    with Cons.prems have "search ic r (i + 1) xs = Some m"
      by simp
    from Cons.IH [OF this] obtain k y where
      "matcher ic [R r] \<lparr>pos = i + 1 + k, rest = drop k xs, caps = []\<rparr> = Some y"
      by blast
    then have "matcher ic [R r] \<lparr>pos = i + Suc k, rest = drop (Suc k) (x # xs), caps = []\<rparr> = Some y"
      by simp
    then show ?thesis by blast
  next
    case (Some y)
    then have "matcher ic [R r] \<lparr>pos = i + 0, rest = drop 0 (x # xs), caps = []\<rparr> = Some y"
      by simp
    then show ?thesis by blast
  qed
qed

lemma regex_continues:
  assumes "matcher ic (R r # todo) st = Some y"
  shows "\<exists>st'. suffix (rest st') (rest st) \<and> matcher ic todo st' = Some y"
proof -
  have "R r # todo = [R r] @ todo"
    by (simp only: append_Cons append_Nil)
  from matcher_continues [OF assms this] show ?thesis .
qed

lemma fence_found:
  assumes "match False rx_fence text = Some m"
  shows "has_fenced_block text"
proof -
  let ?A = "Star (Cls CSpace)"
  let ?B = "Group 1 (LazyStar (Cls CAny))"
  let ?C = "chars [96, 96, 96]"
  from assms have "search False rx_fence 0 text = Some m"
    by (simp only: match_def)
  from search_matcher [OF this] obtain k y where
    "matcher False [R rx_fence] \<lparr>pos = 0 + k, rest = drop k text, caps = []\<rparr> = Some y"
    by blast
  then have "matcher False
      [R ?C, R (Seq (lit ''json'') (Seq ?A (Seq ?B (Seq ?A ?C))))]
      \<lparr>pos = 0 + k, rest = drop k text, caps = []\<rparr> = Some y"
    by (simp only: rx_fence_def matcher_Seq)
  from matcher_chars [OF this] obtain st1 where
    1: "rest \<lparr>pos = 0 + k, rest = drop k text, caps = []\<rparr> = [96, 96, 96] @ rest st1"
    and "matcher False [R (Seq (lit ''json'') (Seq ?A (Seq ?B (Seq ?A ?C))))] st1 = Some y"
    by blast
  then have "matcher False [R (chars (js ''json'')), R (Seq ?A (Seq ?B (Seq ?A ?C)))] st1 = Some y"
    by (simp only: lit_def matcher_Seq)
  from matcher_chars [OF this] obtain st2 where
    2: "rest st1 = js ''json'' @ rest st2"
    and "matcher False [R (Seq ?A (Seq ?B (Seq ?A ?C)))] st2 = Some y"
    by blast
  then have "matcher False [R ?A, R (Seq ?B (Seq ?A ?C))] st2 = Some y"
    by (simp only: matcher_Seq)
  from regex_continues [OF this] obtain st3 where
    3: "suffix (rest st3) (rest st2)"
    and "matcher False [R (Seq ?B (Seq ?A ?C))] st3 = Some y"
    by blast
  then have "matcher False [R ?B, R (Seq ?A ?C)] st3 = Some y"
    by (simp only: matcher_Seq)
  from regex_continues [OF this] obtain st4 where
    4: "suffix (rest st4) (rest st3)"
    and "matcher False [R (Seq ?A ?C)] st4 = Some y"
    by blast
  then have "matcher False [R ?A, R ?C] st4 = Some y"
    by (simp only: matcher_Seq)
  from regex_continues [OF this] obtain st5 where
    5: "suffix (rest st5) (rest st4)"
    and "matcher False [R ?C] st5 = Some y"
    by blast
  from matcher_chars [OF this(2)] obtain st6 :: mstate
    where 6: "rest st5 = [96, 96, 96] @ rest st6"
    by blast
  from 3 obtain b3 where b3: "rest st2 = b3 @ rest st3"
    unfolding suffix_def by blast
  from 4 obtain b4 where b4: "rest st3 = b4 @ rest st4"
    unfolding suffix_def by blast
  from 5 obtain b5 where b5: "rest st4 = b5 @ rest st5"
    unfolding suffix_def by blast
  define body where "body = b3 @ b4 @ b5"
  have 7: "rest st2 = body @ rest st5"
    by (simp add: body_def b3 b4 b5)
  from 1 have 8: "drop k text = [96, 96, 96] @ rest st1"
    by simp
  have "text = take k text @ drop k text"
    by simp
  also have "drop k text = ([96, 96, 96] @ js ''json'') @ body @ [96, 96, 96] @ rest st6"
    by (simp add: 8 2 7 6)
  finally show ?thesis
    unfolding has_fenced_block_def by blast
qed

section \<open>The gap parser\<close>

lemma gap_suggestion_id:
  "gap_suggestion nowAt s i = Inr g \<Longrightarrow> gs_id g = gap_id (nowAt i) i"
  by (auto simp: gap_suggestion_def and_then_def split: sum.splits)

lemma map_elements_gap_ids:
  "map_elements (gap_suggestion nowAt) xs k = Inr gs \<Longrightarrow>
   map gs_id gs = map (\<lambda>i. gap_id (nowAt i) i) [k ..< k + length gs]"
proof (induction xs arbitrary: k gs)
  case Nil
  then show ?case by simp
next
  case (Cons x xs)
  from Cons.prems obtain g rest_gs where g: "gap_suggestion nowAt x k = Inr g"
    and r: "map_elements (gap_suggestion nowAt) xs (k + 1) = Inr rest_gs"
    and gs: "gs = g # rest_gs"
    by (auto split: sum.splits)
  have "[k ..< k + length gs] = k # [k + 1 ..< k + 1 + length rest_gs]"
    by (simp add: gs upt_conv_Cons del: upt_Suc)
  with Cons.IH [OF r] gap_suggestion_id [OF g] gs show ?case
    by simp
qed

lemma parseInt_snoc: "parseInt (ds @ [d]) = 10 * parseInt ds + (d - 48)"
  by (simp add: parseInt_def)

lemma parseInt_number_toString: "parseInt (number_toString n) = n"
proof (induction n rule: number_toString.induct)
  case (1 n)
  show ?case
  proof (cases "n < 10")
    case True
    then show ?thesis
      by (simp add: number_toString.simps [of n] parseInt_def)
  next
    case False
    with 1 have "parseInt (number_toString (n div 10)) = n div 10"
      by simp
    with False show ?thesis
      by (simp add: number_toString.simps [of n] parseInt_snoc)
  qed
qed

lemma number_toString_inj: "number_toString a = number_toString b \<Longrightarrow> a = b"
  by (metis parseInt_number_toString)

lemma number_toString_digits: "c \<in> set (number_toString n) \<Longrightarrow> 48 \<le> c \<and> c \<le> 57"
proof (induction n rule: number_toString.induct)
  case (1 n)
  show ?case
  proof (cases "n < 10")
    case True
    with 1(2) show ?thesis
      by (simp add: number_toString.simps [of n])
  next
    case False
    have "n mod 10 < 10"
      by simp
    with False 1 show ?thesis
      by (auto simp: number_toString.simps [of n])
  qed
qed

lemma gap_id_inj: "gap_id t i = gap_id t' i' \<Longrightarrow> i = i'"
proof -
  assume "gap_id t i = gap_id t' i'"
  then have e: "number_toString t @ 45 # number_toString i
                  = number_toString t' @ 45 # number_toString i'"
    by (simp add: gap_id_def js_def)
  have n: "45 \<notin> set (number_toString t)" "45 \<notin> set (number_toString i)"
    using number_toString_digits [of 45] by auto
  have "(number_toString t @ 45 # number_toString i
           = number_toString t' @ 45 # number_toString i')
        = (number_toString t = number_toString t' \<and> number_toString i = number_toString i')"
    by (rule append_Cons_eq_iff) (rule n)+
  with e have "number_toString i = number_toString i'"
    by simp
  then show ?thesis
    by (rule number_toString_inj)
qed

lemma distinct_gap_ids: "distinct (map (\<lambda>i. gap_id (nowAt i) i) [k ..< k + n])"
  by (auto simp: distinct_map inj_on_def dest: gap_id_inj)

text \<open>
  C9. \<open>parseGapSuggestions\<close> never throws: it returns a list for every text. The list
  is empty when the text has no \<open>```json\<close> fenced block, and it is empty when the body
  of the fenced block (what the pattern captures) is not valid JSON. Every suggestion
  of the list has the id \<open>gap-<clock>-<index>\<close>, made from the clock and the
  suggestion's index and from nothing the model wrote, and the ids of one list are
  pairwise different.
\<close>

theorem parseGapSuggestions_degrades:
  "\<exists>gs. parseGapSuggestions nowAt text = Inr gs
       \<and> map gs_id gs = map (\<lambda>i. gap_id (nowAt i) i) [0 ..< length gs]
       \<and> distinct (map gs_id gs)
       \<and> (\<not> has_fenced_block text \<longrightarrow> gs = [])
       \<and> (\<forall>m body error.
             match False rx_fence text = Some m \<and> group m 1 = Some body
             \<and> JSON_parse body = Inl error \<longrightarrow> gs = [])"
proof (cases "match False rx_fence text")
  case None
  then have "parseGapSuggestions nowAt text = Inr []"
    by (simp add: parseGapSuggestions_def)
  then show ?thesis
    by simp
next
  case (Some m)
  then have fenced: "has_fenced_block text"
    by (rule fence_found)
  let ?parsed = "and_then
       (case group m 1 of
          None \<Rightarrow> Inl (Error_instance (Engine_text SyntaxError))
        | Some body \<Rightarrow> JSON_parse body)
       (\<lambda>suggestions. array_map suggestions (gap_suggestion nowAt))"
  have p: "parseGapSuggestions nowAt text = try_catch ?parsed (\<lambda>e. Inr [])"
    unfolding parseGapSuggestions_def Some by simp
  show ?thesis
  proof (cases ?parsed)
    case (Inl e)
    have "parseGapSuggestions nowAt text = Inr []"
      unfolding p Inl by (simp add: try_catch_def)
    then show ?thesis
      by simp
  next
    case (Inr gs)
    then obtain v where v: "array_map v (gap_suggestion nowAt) = Inr gs"
      and ok: "(case group m 1 of
                  None \<Rightarrow> Inl (Error_instance (Engine_text SyntaxError))
                | Some body \<Rightarrow> JSON_parse body) = Inr v"
      unfolding and_then_def by (auto split: sum.splits)
    from v obtain xs where "map_elements (gap_suggestion nowAt) xs 0 = Inr gs"
      by (cases v) auto
    from map_elements_gap_ids [OF this]
    have ids: "map gs_id gs = map (\<lambda>i. gap_id (nowAt i) i) [0 ..< length gs]"
      by simp
    have d: "distinct (map gs_id gs)"
      unfolding ids using distinct_gap_ids [of nowAt 0 "length gs"] by simp
    have r: "parseGapSuggestions nowAt text = Inr gs"
      unfolding p Inr by (simp add: try_catch_def)
    show ?thesis
    proof (rule exI [of _ gs], intro conjI impI allI)
      show "parseGapSuggestions nowAt text = Inr gs"
        by (rule r)
      show "map gs_id gs = map (\<lambda>i. gap_id (nowAt i) i) [0 ..< length gs]"
        by (rule ids)
      show "distinct (map gs_id gs)"
        by (rule d)
      show "gs = []" if "\<not> has_fenced_block text"
        using that fenced by simp
      show "gs = []"
        if "match False rx_fence text = Some m' \<and> group m' 1 = Some body
            \<and> JSON_parse body = Inl error" for m' body error
      proof -
        from that Some have "m' = m" and "group m 1 = Some body" and "JSON_parse body = Inl error"
          by simp_all
        with ok show ?thesis
          by simp
      qed
    qed
  qed
qed

lemma fenced_block_has_backtick: "has_fenced_block text \<Longrightarrow> 96 \<in> set text"
  by (auto simp: has_fenced_block_def)

lemma no_fence_response_unfenced: "\<not> has_fenced_block no_fence_response"
proof
  assume "has_fenced_block no_fence_response"
  then have "96 \<in> set no_fence_response"
    by (rule fenced_block_has_backtick)
  then show False
    by (simp add: no_fence_response_def js_def)
qed

lemma match_malformed:
  "match False rx_fence malformed_response =
     Some \<lparr>m_index = 6, m_end = 31,
           m_groups = [(0, [96, 96, 96] @ js ''json'' @ [10] @ malformed_json @ [10, 96, 96, 96]),
                       (1, malformed_json)]\<rparr>"
  by (simp add: malformed_response_def malformed_json_def rx_fence_def quoted_def rx_eval)

lemma parse_malformed:
  "JSON_parse malformed_json = Inl (Error_instance (Engine_text SyntaxError))"
  by (simp add: malformed_json_def quoted_def json_eval)

lemma match_two_gaps:
  "match False rx_fence two_gaps_response =
     Some \<lparr>m_index = 0, m_end = 57,
           m_groups = [(0, two_gaps_response), (1, two_gaps_json)]\<rparr>"
  by (simp add: two_gaps_response_def two_gaps_json_def rx_fence_def quoted_def rx_eval)

lemma parse_two_gaps:
  "JSON_parse two_gaps_json =
     Inr (JArray [JObject [(js ''id'', JString (js ''mine'')), (js ''title'', JString (js ''T''))],
                  JObject [(js ''rationale'', JString (js ''R''))]])"
  by (simp add: two_gaps_json_def quoted_def json_eval)

lemma parseGapSuggestions_two_gaps:
  "parseGapSuggestions nowAt two_gaps_response =
     Inr [\<lparr>gs_id = gap_id (nowAt 0) 0, gs_title = JString (js ''T''), gs_objective = JUndefined,
           gs_guidance = JUndefined, gs_rationale = JString (js ''No rationale provided'')\<rparr>,
          \<lparr>gs_id = gap_id (nowAt 1) 1, gs_title = JUndefined, gs_objective = JUndefined,
           gs_guidance = JUndefined, gs_rationale = JString (js ''R'')\<rparr>]"
  unfolding parseGapSuggestions_def match_two_gaps
  by (simp add: group_def parse_two_gaps and_then_def try_catch_def gap_suggestion_def js_or_def
      js_def)

lemma sample_gap_ids:
  "gap_id (sample_clock 0) 0 = js ''gap-1700000000000-0''"
  "gap_id (sample_clock 1) 1 = js ''gap-1700000000001-1''"
  "gap_id (sample_clock (Suc 0)) (Suc 0) = js ''gap-1700000000001-1''"
  by (simp_all add: gap_id_def sample_clock_def number_toString.simps js_def)

text \<open>
  The three sample responses: no fenced block; a fenced block with malformed JSON; two
  suggestions, the first with an \<open>id\<close> of the model's choosing, which the result does
  not carry.
\<close>

theorem parseGapSuggestions_degrades_witness:
  "parseGapSuggestions sample_clock no_fence_response = Inr []
   \<and> parseGapSuggestions sample_clock malformed_response = Inr []
   \<and> map_sum id (map gs_id) (parseGapSuggestions sample_clock two_gaps_response)
       = Inr [js ''gap-1700000000000-0'', js ''gap-1700000000001-1'']"
proof -
  from parseGapSuggestions_degrades [of sample_clock no_fence_response]
  obtain gs where "parseGapSuggestions sample_clock no_fence_response = Inr gs"
    and "\<not> has_fenced_block no_fence_response \<longrightarrow> gs = []"
    by blast
  with no_fence_response_unfenced
  have a: "parseGapSuggestions sample_clock no_fence_response = Inr []"
    by simp
  from parseGapSuggestions_degrades [of sample_clock malformed_response]
  obtain gs' where "parseGapSuggestions sample_clock malformed_response = Inr gs'"
    and "\<forall>m body error.
           match False rx_fence malformed_response = Some m \<and> group m 1 = Some body
           \<and> JSON_parse body = Inl error \<longrightarrow> gs' = []"
    by blast
  with match_malformed parse_malformed
  have b: "parseGapSuggestions sample_clock malformed_response = Inr []"
    by (simp add: group_def)
  from parseGapSuggestions_degrades [of sample_clock two_gaps_response]
  obtain gs'' where g: "parseGapSuggestions sample_clock two_gaps_response = Inr gs''"
    and ids: "map gs_id gs'' = map (\<lambda>i. gap_id (sample_clock i) i) [0 ..< length gs'']"
    by blast
  from g have "length gs'' = 2"
    unfolding parseGapSuggestions_two_gaps by auto
  with ids have "map gs_id gs'' = [gap_id (sample_clock 0) 0, gap_id (sample_clock 1) 1]"
    by (simp add: upt_rec numeral_2_eq_2)
  then have c: "map_sum id (map gs_id) (parseGapSuggestions sample_clock two_gaps_response)
                  = Inr [js ''gap-1700000000000-0'', js ''gap-1700000000001-1'']"
    by (simp add: g sample_gap_ids)
  from a b c show ?thesis
    by simp
qed

section \<open>Framework generation on capitalized keys\<close>

lemma number_toString_0: "number_toString 0 = [48]"
  by (simp add: number_toString.simps)

lemma number_toString_1: "number_toString 1 = [49]"
  by (simp add: number_toString.simps)

lemma match_capital_Segments:
  "match False rx_object capital_Segments_response
     = Some \<lparr>m_index = 0, m_end = 59, m_groups = [(0, capital_Segments_response)]\<rparr>"
  by (simp add: capital_Segments_response_def rx_object_def quoted_def rx_eval)

lemma parse_capital_Segments:
  "JSON_parse capital_Segments_response =
     Inr (JObject [(js ''Segments'',
            JArray [JObject [(js ''title'', JString (js ''A'')), (js ''objective'', JString (js ''B'')),
                             (js ''guidance'', JString (js ''C''))]])])"
  by (simp add: capital_Segments_response_def quoted_def json_eval)

lemma assemble_capital_Segments:
  "assemble_framework req nowAt capital_Segments_response = Inl (Error_instance (Engine_text TypeError))"
  unfolding assemble_framework_def match_capital_Segments
  by (simp add: group_def parse_capital_Segments and_then_def js_def)

lemma page_capital_Segments:
  "page_segments nowAt capital_Segments_response =
     Some (Inr [\<lparr>fs_id = segment_id (nowAt 0) 0, fs_title = JString (js ''A''),
                 fs_objective = JString (js ''B''), fs_guidance = JString (js ''C''),
                 fs_order = 0\<rparr>])"
  unfolding page_segments_def match_capital_Segments
  by (simp add: group_def parse_capital_Segments and_then_def page_segment_def js_or_def js_def)

lemma match_capital_Title:
  "match False rx_object capital_Title_response
     = Some \<lparr>m_index = 12, m_end = 40, m_groups = [(0, capital_Title_json)]\<rparr>"
  by (simp add: capital_Title_response_def capital_Title_json_def rx_object_def quoted_def rx_eval)

lemma parse_capital_Title:
  "JSON_parse capital_Title_json =
     Inr (JObject [(js ''segments'', JArray [JObject [(js ''Title'', JString (js ''A''))]])])"
  by (simp add: capital_Title_json_def quoted_def json_eval)

lemma assemble_capital_Title:
  "assemble_framework req nowAt capital_Title_response =
     Inr \<lparr>fw_metadata =
            \<lparr>md_title = js ''Analysis: '' @ req_contextUnderstanding req,
             md_created = req_created req, md_objective = req_analysisObjective req,
             md_tags = req_metadataTags req\<rparr>,
          fw_segments =
            [\<lparr>fs_id = segment_id (nowAt 0) 0, fs_title = JUndefined, fs_objective = JUndefined,
              fs_guidance = JUndefined, fs_order = 0\<rparr>]\<rparr>"
  unfolding assemble_framework_def match_capital_Title
  by (simp add: group_def parse_capital_Title and_then_def planner_segment_def js_def)

lemma page_capital_Title:
  "page_segments nowAt capital_Title_response =
     Some (Inr [\<lparr>fs_id = segment_id (nowAt 0) 0, fs_title = JString (js ''A''),
                 fs_objective = JString (js ''No objective provided''),
                 fs_guidance = JString (js ''No guidance provided''),
                 fs_order = 0\<rparr>])"
  unfolding page_segments_def match_capital_Title
  by (simp add: group_def parse_capital_Title and_then_def page_segment_def js_or_def js_def)

lemma match_plain:
  "match False rx_object plain_response
     = Some \<lparr>m_index = 6, m_end = 65, m_groups = [(0, plain_json)]\<rparr>"
  by (simp add: plain_response_def plain_json_def rx_object_def quoted_def rx_eval)

lemma parse_plain:
  "JSON_parse plain_json =
     Inr (JObject [(js ''segments'',
            JArray [JObject [(js ''title'', JString (js ''A'')), (js ''objective'', JString (js ''B'')),
                             (js ''guidance'', JString (js ''C''))]])])"
  by (simp add: plain_json_def quoted_def json_eval)

lemma assemble_plain:
  "assemble_framework req nowAt plain_response =
     Inr \<lparr>fw_metadata =
            \<lparr>md_title = js ''Analysis: '' @ req_contextUnderstanding req,
             md_created = req_created req, md_objective = req_analysisObjective req,
             md_tags = req_metadataTags req\<rparr>,
          fw_segments =
            [\<lparr>fs_id = segment_id (nowAt 0) 0, fs_title = JString (js ''A''),
              fs_objective = JString (js ''B''), fs_guidance = JString (js ''C''),
              fs_order = 0\<rparr>]\<rparr>"
  unfolding assemble_framework_def match_plain
  by (simp add: group_def parse_plain and_then_def planner_segment_def js_def)

text \<open>
  C3 (the code at the failing inputs). On the response
  \<open>{"Segments":[{"title":"A","objective":"B","guidance":"C"}]}\<close>
  \<open>PlannerAgent.generateFramework\<close> logs an error and throws a \<open>TypeError\<close>
  (\<open>parsed.segments\<close> is \<open>undefined\<close>), while the page of phase 2 assembles the one
  segment from the same text. On \<open>Here it is: {"segments":[{"Title":"A"}]}\<close>
  \<open>generateFramework\<close> returns a segment whose title, objective and guidance are
  \<open>undefined\<close>, while the page takes the title from \<open>Title\<close> and fills the two missing
  fields with its placeholder strings.
\<close>

theorem generateFramework_capitalized_keys:
  "generateFramework call req nowAt (Inr \<lparr>content = capital_Segments_response, usage = u\<rparr>) =
     ([LogRequest (js ''Planner Agent'') (js ''planner'') (systemPrompt call) (userPrompt call)
         (model call),
       LogResponse (logId call) capital_Segments_response (endTime call - startTime call)
         (token_usage u),
       LogError (js ''Planner Agent'') (js ''planner'') (Engine_text TypeError)],
      Inl (Error_instance (Engine_text TypeError)))
   \<and> page_segments nowAt capital_Segments_response =
       Some (Inr [\<lparr>fs_id = segment_id (nowAt 0) 0, fs_title = JString (js ''A''),
                   fs_objective = JString (js ''B''), fs_guidance = JString (js ''C''),
                   fs_order = 0\<rparr>])
   \<and> snd (generateFramework call req nowAt
            (Inr \<lparr>content = capital_Title_response, usage = u\<rparr>)) =
       Inr \<lparr>fw_metadata =
              \<lparr>md_title = js ''Analysis: '' @ req_contextUnderstanding req,
               md_created = req_created req, md_objective = req_analysisObjective req,
               md_tags = req_metadataTags req\<rparr>,
            fw_segments =
              [\<lparr>fs_id = segment_id (nowAt 0) 0, fs_title = JUndefined,
                fs_objective = JUndefined, fs_guidance = JUndefined, fs_order = 0\<rparr>]\<rparr>
   \<and> page_segments nowAt capital_Title_response =
       Some (Inr [\<lparr>fs_id = segment_id (nowAt 0) 0, fs_title = JString (js ''A''),
                   fs_objective = JString (js ''No objective provided''),
                   fs_guidance = JString (js ''No guidance provided''),
                   fs_order = 0\<rparr>])"
  by (simp add: generateFramework_def Let_def assemble_capital_Segments assemble_capital_Title
      page_capital_Segments page_capital_Title message_or_unknown_def)

text \<open>
  For comparison, the response of the spec's example, with lower-case keys and prose
  around the object: one segment with title \<open>A\<close>, objective \<open>B\<close>, guidance \<open>C\<close>, a
  fresh id and order 0.
\<close>

lemma generateFramework_plain:
  "snd (generateFramework call req nowAt (Inr \<lparr>content = plain_response, usage = u\<rparr>)) =
     Inr \<lparr>fw_metadata =
            \<lparr>md_title = js ''Analysis: '' @ req_contextUnderstanding req,
             md_created = req_created req, md_objective = req_analysisObjective req,
             md_tags = req_metadataTags req\<rparr>,
          fw_segments =
            [\<lparr>fs_id = segment_id (nowAt 0) 0, fs_title = JString (js ''A''),
              fs_objective = JString (js ''B''), fs_guidance = JString (js ''C''),
              fs_order = 0\<rparr>]\<rparr>"
  by (simp add: generateFramework_def Let_def assemble_plain)

section \<open>Completions that fail\<close>

text \<open>
  C2 (as amended). When the completion call fails, \<open>Writer.rewriteSegment\<close>,
  \<open>Critic.evaluateSegment\<close> and \<open>Planner.generateFramework\<close> record an error log entry
  with the error's message and throw the error again, and no value is returned in its
  place; \<open>Writer.analyzeSegment\<close> records the same kind of entry and returns an
  analysis with the segment's id, empty content and the status \<open>error\<close>.
\<close>

theorem failed_completion:
  "rewriteSegment call (Inl error) =
     ([LogRequest (js ''Writer Agent'') (js ''writer'') (systemPrompt call) (userPrompt call)
         (model call),
       LogError (js ''Writer Agent'') (js ''writer'') (message_or_unknown error)],
      Inl error)
   \<and> evaluateSegment call segmentId now (Inl error) =
     ([LogRequest (js ''Critic Agent'') (js ''critic'') (systemPrompt call) (userPrompt call)
         (model call),
       LogError (js ''Critic Agent'') (js ''critic'') (message_or_unknown error)],
      Inl error)
   \<and> generateFramework call req nowAt (Inl error) =
     ([LogRequest (js ''Planner Agent'') (js ''planner'') (systemPrompt call) (userPrompt call)
         (model call),
       LogError (js ''Planner Agent'') (js ''planner'') (message_or_unknown error)],
      Inl error)
   \<and> analyzeSegment call segmentId now (Inl error) =
     ([LogRequest (js ''Writer Agent'') (js ''writer'') (systemPrompt call) (userPrompt call)
         (model call),
       LogError (js ''Writer Agent'') (js ''writer'') (message_or_unknown error)],
      Inr \<lparr>sa_segmentId = segmentId, sa_content = [], sa_status = status_error,
            sa_generatedAt = None\<rparr>)"
  by (simp add: rewriteSegment_def evaluateSegment_def generateFramework_def analyzeSegment_def
      Let_def)

text \<open>
  C2 (counterexample to the claim as stated). With a completion call that fails with
  \<open>new Error('HTTP 500')\<close>, \<open>Writer.analyzeSegment\<close> logs the error and returns a
  value: an analysis of status \<open>error\<close>. It does not throw.
\<close>

theorem analyzeSegment_returns_fallback:
  "analyzeSegment sample_invocation (js ''s1'') 1700000000000
     (Inl (Error_instance (Text (js ''HTTP 500'')))) =
     ([LogRequest (js ''Writer Agent'') (js ''writer'') (js ''system'') (js ''user'')
         (js ''gemini-2.0-flash-001''),
       LogError (js ''Writer Agent'') (js ''writer'') (Text (js ''HTTP 500''))],
      Inr \<lparr>sa_segmentId = js ''s1'', sa_content = [], sa_status = status_error,
            sa_generatedAt = None\<rparr>)"
  by (simp add: analyzeSegment_def Let_def sample_invocation_def message_or_unknown_def)

end
